theory Spec2Isabelle
  imports Main
begin

section \<open>dynamic\_overload: the data model\<close>

text \<open>
  A shallow embedding of \<^verbatim>\<open>src/dynamic_overload/overload.py\<close>.

  The module works on objects of the Python runtime and of the standard library's
  \<^verbatim>\<open>inspect\<close> module. What the module itself computes is translated function by
  function; what it calls from outside (\<^verbatim>\<open>isinstance\<close>, iterating over the tuple bound to
  \<^verbatim>\<open>*args\<close>, \<^verbatim>\<open>dict.values\<close>, \<^verbatim>\<open>Signature.bind\<close>) is the record \<open>runtime\<close>, which
  every function of the embedding takes as its first argument.
\<close>

text \<open>
  Exceptions. \<open>TypeError\<close> stands for any instance of \<^verbatim>\<open>TypeError\<close> (an \<^verbatim>\<open>except TypeError\<close>
  clause does not tell them apart); \<open>OtherException\<close> is any exception that is neither a
  \<^verbatim>\<open>TypeError\<close>, a \<^verbatim>\<open>KeyError\<close>, an \<^verbatim>\<open>AttributeError\<close> nor a
  \<^verbatim>\<open>NoMatchingOverloadException\<close>.
\<close>

datatype pyexn =
    NoMatchingOverloadException
  | TypeError
  | KeyError
  | AttributeError
  | OtherException string

text \<open>
  Annotations of parameters. \<open>Empty\<close> is \<^verbatim>\<open>Parameter.empty\<close>, \<open>AnyT\<close> is \<^verbatim>\<open>typing.Any\<close>,
  \<open>Class c\<close> a class, \<open>Union hs\<close> a \<^verbatim>\<open>types.UnionType\<close> with \<^verbatim>\<open>__args__ = hs\<close>
  (\<^verbatim>\<open>int | str\<close>), and \<open>Generic c ps\<close> a parameterized type (\<^verbatim>\<open>list[int]\<close>,
  \<^verbatim>\<open>Iterable[int]\<close>): the only kind of annotation with an \<^verbatim>\<open>__origin__\<close>, which is the
  class \<open>c\<close>. Equality of annotations (Python's \<^verbatim>\<open>==\<close>) is equality of these terms.
  Annotations written with \<^verbatim>\<open>typing.Union\<close> or \<^verbatim>\<open>typing.Optional\<close>, whose
  \<^verbatim>\<open>__origin__\<close> is not a class, and annotations given as strings are not modelled.
\<close>

datatype 'c hint =
    Empty
  | AnyT
  | Class 'c
  | Union "'c hint list"
  | Generic 'c "'c hint list"

datatype kind =
    POSITIONAL_ONLY
  | POSITIONAL_OR_KEYWORD
  | VAR_POSITIONAL
  | KEYWORD_ONLY
  | VAR_KEYWORD

text \<open>\<^verbatim>\<open>inspect.Parameter\<close>; \<open>pdefault = None\<close> is \<^verbatim>\<open>Parameter.empty\<close>.\<close>

record ('c, 'v) parameter =
  pname :: string
  pkind :: kind
  annotation :: "'c hint"
  pdefault :: "'v option"

text \<open>
  \<^verbatim>\<open>inspect.Signature\<close>: \<^verbatim>\<open>sig.parameters\<close> is an ordered mapping from names to
  parameters, here the list of the parameters in their order. The return annotation is
  never read by the module.
\<close>

type_synonym ('c, 'v) signature = "('c, 'v) parameter list"

text \<open>\<^verbatim>\<open>sig.parameters[name]\<close>, which raises \<^verbatim>\<open>KeyError\<close> on a missing name.\<close>

definition parameters_get :: "('c, 'v) signature \<Rightarrow> string \<Rightarrow> ('c, 'v) parameter option" where
  "parameters_get sg n = find (\<lambda>p. pname p = n) sg"

text \<open>
  The operations of the Python runtime the module calls:
  \<^item> \<open>isinstance v c\<close> is \<^verbatim>\<open>isinstance(v, c)\<close> for a class \<open>c\<close>;
  \<^item> \<open>iter_items v\<close> are the items \<^verbatim>\<open>for a in v\<close> yields, \<open>None\<close> when \<open>v\<close> is not
    iterable (a \<^verbatim>\<open>TypeError\<close>);
  \<^item> \<open>dict_values v\<close> are the items of \<^verbatim>\<open>v.values()\<close>, \<open>None\<close> when \<open>v\<close> has no such
    method (an \<^verbatim>\<open>AttributeError\<close>);
  \<^item> \<open>bind sg args kwargs\<close> is \<^verbatim>\<open>sg.bind(*args, **kwargs)\<close> followed by
    \<^verbatim>\<open>apply_defaults()\<close>: the items of \<^verbatim>\<open>bound_args.arguments\<close> in order, or \<open>None\<close>
    when \<^verbatim>\<open>bind\<close> raises \<^verbatim>\<open>TypeError\<close> (\<^verbatim>\<open>apply_defaults\<close> never raises).
\<close>

record ('c, 'v) runtime =
  isinstance :: "'v \<Rightarrow> 'c \<Rightarrow> bool"
  iter_items :: "'v \<Rightarrow> 'v list option"
  dict_values :: "'v \<Rightarrow> 'v list option"
  bind :: "('c, 'v) signature \<Rightarrow> 'v list \<Rightarrow> (string \<times> 'v) list \<Rightarrow> (string \<times> 'v) list option"

section \<open>Scoring\<close>

text \<open>
  \<^verbatim>\<open>_score_type_hint\<close>: a parameterized type is replaced by its origin first, so
  \<open>Generic c ps\<close> is scored as the class \<open>c\<close>; then \<^verbatim>\<open>Parameter.empty\<close> and \<^verbatim>\<open>Any\<close>
  score 0; a union scores 1 when some member scores more than 0 and -1 otherwise; a
  class scores 1 or -1 by \<^verbatim>\<open>isinstance\<close>.
\<close>

fun score_type_hint :: "('c, 'v) runtime \<Rightarrow> 'v \<Rightarrow> 'c hint \<Rightarrow> int" where
  "score_type_hint rt arg (Generic c ps) = (if isinstance rt arg c then 1 else - 1)"
| "score_type_hint rt arg Empty = 0"
| "score_type_hint rt arg AnyT = 0"
| "score_type_hint rt arg (Union hs) =
     (if list_ex (\<lambda>subhint. score_type_hint rt arg subhint > 0) hs then 1 else - 1)"
| "score_type_hint rt arg (Class c) = (if isinstance rt arg c then 1 else - 1)"

text \<open>
  \<^verbatim>\<open>_score_any_type_hint\<close>: for \<^verbatim>\<open>*args\<close> and \<^verbatim>\<open>**kwargs\<close> the scores of the supplied
  values are added up with Python's \<^verbatim>\<open>sum\<close>.
\<close>

definition score_any_type_hint ::
  "('c, 'v) runtime \<Rightarrow> 'v \<Rightarrow> ('c, 'v) parameter \<Rightarrow> pyexn + int" where
  "score_any_type_hint rt arg param =
     (let hint = annotation param in
      if pkind param = VAR_POSITIONAL then
        (case iter_items rt arg of
           None \<Rightarrow> Inl TypeError
         | Some items \<Rightarrow> Inr (sum_list (map (\<lambda>a. score_type_hint rt a hint) items)))
      else if pkind param = VAR_KEYWORD then
        (case dict_values rt arg of
           None \<Rightarrow> Inl AttributeError
         | Some vals \<Rightarrow> Inr (sum_list (map (\<lambda>a. score_type_hint rt a hint) vals)))
      else Inr (score_type_hint rt arg hint))"

text \<open>
  \<^verbatim>\<open>_signature_matches\<close>: the loop over \<^verbatim>\<open>bound_args.arguments.items()\<close>, with the running
  \<^verbatim>\<open>score\<close> as an accumulator; a negative partial score returns -1 at once.
\<close>

fun signature_matches_loop ::
  "('c, 'v) runtime \<Rightarrow> ('c, 'v) signature \<Rightarrow> (string \<times> 'v) list \<Rightarrow> int \<Rightarrow> pyexn + int" where
  "signature_matches_loop rt sg [] score = Inr score"
| "signature_matches_loop rt sg ((n, arg) # rest) score =
     (case parameters_get sg n of
        None \<Rightarrow> Inl KeyError
      | Some param \<Rightarrow>
          (case score_any_type_hint rt arg param of
             Inl e \<Rightarrow> Inl e
           | Inr partial_score \<Rightarrow>
               if partial_score < 0 then Inr (- 1)
               else signature_matches_loop rt sg rest (score + partial_score)))"

definition signature_matches ::
  "('c, 'v) runtime \<Rightarrow> ('c, 'v) signature \<Rightarrow> (string \<times> 'v) list \<Rightarrow> pyexn + int" where
  "signature_matches rt sg bound_args = signature_matches_loop rt sg bound_args 0"

section \<open>The conflict detector\<close>

text \<open>
  \<^verbatim>\<open>_overlap_signature\<close>. \<open>len_defaults\<close> counts the parameters whose default is not
  \<^verbatim>\<open>Parameter.empty\<close>; the counts are Python integers, so the differences are taken in
  \<open>int\<close>. \<open>arity_mismatch\<close> is the condition of the first \<^verbatim>\<open>if\<close>, under which the
  function returns \<^verbatim>\<open>False\<close> before it looks at any annotation.
\<close>

definition len_defaults :: "('c, 'v) signature \<Rightarrow> int" where
  "len_defaults sg = int (length (filter (\<lambda>param. pdefault param \<noteq> None) sg))"

definition arity_mismatch :: "('c, 'v) signature \<Rightarrow> ('c, 'v) signature \<Rightarrow> bool" where
  "arity_mismatch sig1 sig2 =
     (int (length sig1) \<noteq> int (length sig2)
      \<and> int (length sig1) \<noteq> int (length sig2) - len_defaults sig2
      \<and> int (length sig1) - len_defaults sig1 \<noteq> int (length sig2)
      \<and> int (length sig1) - len_defaults sig1 \<noteq> int (length sig2) - len_defaults sig2)"

text \<open>Replacing a parameterized annotation by its \<^verbatim>\<open>__origin__\<close>.\<close>

fun erase_origin :: "'c hint \<Rightarrow> 'c hint" where
  "erase_origin (Generic c ps) = Class c"
| "erase_origin h = h"

fun is_union :: "'c hint \<Rightarrow> bool" where
  "is_union (Union hs) = True"
| "is_union h = False"

text \<open>
  \<^verbatim>\<open>params1\<close> and \<^verbatim>\<open>params2\<close> of the union branch: the \<^verbatim>\<open>__args__\<close> of a union, the
  one-element tuple of any other annotation.
\<close>

fun union_args :: "'c hint \<Rightarrow> 'c hint list" where
  "union_args (Union hs) = hs"
| "union_args h = [h]"

text \<open>
  The body of the loop for one parameter of \<^verbatim>\<open>sig1\<close> and the parameter of the same name
  of \<^verbatim>\<open>sig2\<close>: \<open>True\<close> where the loop goes on (\<^verbatim>\<open>continue\<close>, or the end of the body),
  \<open>False\<close> where it returns \<^verbatim>\<open>False\<close>. The two tuples are swapped when the first is the
  longer.
\<close>

definition annotations_compatible :: "'c hint \<Rightarrow> 'c hint \<Rightarrow> bool" where
  "annotations_compatible ann other_ann =
     (let a = erase_origin ann; b = erase_origin other_ann in
      if a = Empty \<or> b = Empty \<or> a = AnyT \<or> b = AnyT then True
      else if is_union a \<or> is_union b then
        (let params1 = union_args a; params2 = union_args b;
             (params1, params2) =
               (if length params1 > length params2 then (params2, params1)
                else (params1, params2))
         in list_ex (\<lambda>p. p \<in> set params2) params1)
      else \<not> (a \<noteq> b))"

fun overlap_loop :: "('c, 'v) signature \<Rightarrow> ('c, 'v) signature \<Rightarrow> bool" where
  "overlap_loop [] sig2 = True"
| "overlap_loop (param # rest) sig2 =
     (case parameters_get sig2 (pname param) of
        None \<Rightarrow> overlap_loop rest sig2
      | Some other_param \<Rightarrow>
          if annotations_compatible (annotation param) (annotation other_param)
          then overlap_loop rest sig2
          else False)"

text \<open>
  The loop runs over \<^verbatim>\<open>sig1.parameters.items()\<close>, a mapping, which holds one parameter
  for each name; the list \<open>sig1\<close> of the embedding is taken as it is, and the theorems
  that need it ask for distinct names.
\<close>

definition overlap_signature :: "('c, 'v) signature \<Rightarrow> ('c, 'v) signature \<Rightarrow> bool" where
  "overlap_signature sig1 sig2 =
     (if arity_mismatch sig1 sig2 then False else overlap_loop sig1 sig2)"

section \<open>Callables and dispatchers\<close>

text \<open>
  A Python function as the module sees it: its \<^verbatim>\<open>__name__\<close>, its \<^verbatim>\<open>__doc__\<close> (\<open>None\<close>
  when it has no docstring), the signature \<^verbatim>\<open>inspect.signature\<close> gives for it, and what
  calling it does. A call takes the positional and the keyword arguments and the state
  of the program (of any type \<open>'s\<close>), and gives back the value returned or the exception
  raised, with the state it leaves.
\<close>

type_synonym ('v, 's) pycall = "'v list \<Rightarrow> (string \<times> 'v) list \<Rightarrow> 's \<Rightarrow> (pyexn + 'v) \<times> 's"

record ('c, 'v, 's) callable =
  fname :: string
  fdoc :: "string option"
  fsig :: "('c, 'v) signature"
  body :: "('v, 's) pycall"

definition signature :: "('c, 'v, 's) callable \<Rightarrow> ('c, 'v) signature" where
  "signature func = fsig func"

text \<open>
  The loop of \<^verbatim>\<open>best_match\<close>, the same in both dispatchers, over
  \<^verbatim>\<open>zip(self.overload_list, self.signatures)\<close>, with \<^verbatim>\<open>best_score\<close> and \<^verbatim>\<open>best_func\<close> as
  accumulators. Only \<^verbatim>\<open>sig.bind\<close> stands inside the \<^verbatim>\<open>try\<close>: an exception raised while
  scoring leaves the loop.
\<close>

fun best_match_loop ::
  "('c, 'v) runtime \<Rightarrow> 'v list \<Rightarrow> (string \<times> 'v) list \<Rightarrow>
   (('c, 'v, 's) callable \<times> ('c, 'v) signature) list \<Rightarrow>
   int \<Rightarrow> ('c, 'v, 's) callable option \<Rightarrow> pyexn + (int \<times> ('c, 'v, 's) callable option)" where
  "best_match_loop rt args kwargs [] best_score best_func = Inr (best_score, best_func)"
| "best_match_loop rt args kwargs ((func, sg) # rest) best_score best_func =
     (case bind rt sg args kwargs of
        None \<Rightarrow> best_match_loop rt args kwargs rest best_score best_func
      | Some bound_args \<Rightarrow>
          (case signature_matches rt sg bound_args of
             Inl e \<Rightarrow> Inl e
           | Inr score \<Rightarrow>
               if score > best_score
               then best_match_loop rt args kwargs rest score (Some func)
               else best_match_loop rt args kwargs rest best_score best_func))"

definition best_match_result ::
  "pyexn + (int \<times> ('c, 'v, 's) callable option) \<Rightarrow> pyexn + ('c, 'v, 's) callable" where
  "best_match_result r =
     (case r of
        Inl e \<Rightarrow> Inl e
      | Inr (best_score, None) \<Rightarrow> Inl NoMatchingOverloadException
      | Inr (best_score, Some best_func) \<Rightarrow> Inr best_func)"

text \<open>\<^verbatim>\<open>FunctionOverloadDispatcher\<close>.\<close>

record ('c, 'v, 's) function_dispatcher =
  dname :: string
  overload_list :: "('c, 'v, 's) callable list"
  signatures :: "('c, 'v) signature list"

definition fn_best_match ::
  "('c, 'v) runtime \<Rightarrow> ('c, 'v, 's, 'z) function_dispatcher_scheme \<Rightarrow>
   'v list \<Rightarrow> (string \<times> 'v) list \<Rightarrow> pyexn + ('c, 'v, 's) callable" where
  "fn_best_match rt d args kwargs =
     best_match_result
       (best_match_loop rt args kwargs (zip (overload_list d) (signatures d)) (- 1) None)"

definition fn_call ::
  "('c, 'v) runtime \<Rightarrow> ('c, 'v, 's, 'z) function_dispatcher_scheme \<Rightarrow> ('v, 's) pycall" where
  "fn_call rt d args kwargs s =
     (case fn_best_match rt d args kwargs of
        Inl e \<Rightarrow> (Inl e, s)
      | Inr func \<Rightarrow> body func args kwargs s)"

text \<open>
  \<^verbatim>\<open>BoundOverloadDispatcher\<close>: the fields of the free-function dispatcher and the
  instance. \<^verbatim>\<open>owner_cls\<close> and \<^verbatim>\<open>name\<close> are only used to look the name up one step further
  along the inheritance chain; \<open>super_call\<close> is what that lookup,
  \<^verbatim>\<open>getattr(super(self.owner_cls, self.instance), self.name, None)\<close>, gives: \<open>None\<close>, or
  the bound method of the ancestor, which is called without the instance.
\<close>

record ('c, 'v, 's) bound_dispatcher = "('c, 'v, 's) function_dispatcher" +
  self_instance :: 'v
  super_call :: "('v, 's) pycall option"

definition bound_best_match ::
  "('c, 'v) runtime \<Rightarrow> ('c, 'v, 's) bound_dispatcher \<Rightarrow>
   'v list \<Rightarrow> (string \<times> 'v) list \<Rightarrow> pyexn + ('c, 'v, 's) callable" where
  "bound_best_match rt d args kwargs =
     best_match_result
       (best_match_loop rt (self_instance d # args) kwargs
          (zip (overload_list d) (signatures d)) (- 1) None)"

text \<open>
  \<^verbatim>\<open>BoundOverloadDispatcher.__call__\<close>. The call of the chosen function stands in the
  \<^verbatim>\<open>else\<close> branch of the first \<^verbatim>\<open>try\<close>, which no \<^verbatim>\<open>except\<close> clause guards; any exception
  of \<^verbatim>\<open>best_match\<close> other than \<^verbatim>\<open>NoMatchingOverloadException\<close> goes to the caller. The
  call of the ancestor stands inside \<^verbatim>\<open>try ... except TypeError: pass\<close>.
\<close>

definition bound_call ::
  "('c, 'v) runtime \<Rightarrow> ('c, 'v, 's) bound_dispatcher \<Rightarrow> ('v, 's) pycall" where
  "bound_call rt d args kwargs s =
     (case bound_best_match rt d args kwargs of
        Inr func \<Rightarrow> body func (self_instance d # args) kwargs s
      | Inl NoMatchingOverloadException \<Rightarrow>
          (case super_call d of
             None \<Rightarrow> (Inl NoMatchingOverloadException, s)
           | Some ancestor \<Rightarrow>
               (case ancestor args kwargs s of
                  (Inl TypeError, s') \<Rightarrow> (Inl NoMatchingOverloadException, s')
                | (r, s') \<Rightarrow> (r, s')))
      | Inl e \<Rightarrow> (Inl e, s))"

section \<open>The registry\<close>

text \<open>
  \<^verbatim>\<open>OverloadItem\<close>: the name and the two lists, which grow together. The attributes
  \<^verbatim>\<open>__name__\<close>, \<^verbatim>\<open>__qualname__\<close>, \<^verbatim>\<open>__module__\<close> and \<^verbatim>\<open>__annotations__\<close>, copied from the
  first function and read by no method of the module, are left out.
\<close>

record ('c, 'v, 's) overload_item =
  item_name :: string
  overloads :: "('c, 'v, 's) callable list"
  item_signatures :: "('c, 'v) signature list"

definition OverloadItem :: "('c, 'v, 's) callable \<Rightarrow> ('c, 'v, 's) overload_item" where
  "OverloadItem func =
     \<lparr>item_name = fname func, overloads = [func], item_signatures = [signature func]\<rparr>"

text \<open>
  A warning given to \<^verbatim>\<open>warnings.warn\<close>: the name of the new function, its signature and
  the registered signature it collides with. \<^verbatim>\<open>warnings.warn\<close> records the warning and
  returns (the behaviour under Python's default warning filters); the embedding returns
  the warnings of a call, in the order they are given.
\<close>

datatype ('c, 'v) warning =
  ConflictingOverloadWarning string "('c, 'v) signature" "('c, 'v) signature"

text \<open>\<^verbatim>\<open>OverloadItem.append\<close>.\<close>

definition append_overload ::
  "('c, 'v, 's) overload_item \<Rightarrow> ('c, 'v, 's) callable \<Rightarrow>
   ('c, 'v, 's) overload_item \<times> ('c, 'v) warning list" where
  "append_overload item func =
     (let sg = signature func;
          warned = map (\<lambda>existing_sig. ConflictingOverloadWarning (fname func) sg existing_sig)
                     (filter (\<lambda>existing_sig. overlap_signature sg existing_sig)
                        (item_signatures item))
      in (item\<lparr>overloads := overloads item @ [func],
                item_signatures := item_signatures item @ [sg]\<rparr>, warned))"

text \<open>A sequence of calls of \<^verbatim>\<open>append\<close> on one item, with all the warnings given.\<close>

fun append_all ::
  "('c, 'v, 's) overload_item \<Rightarrow> ('c, 'v, 's) callable list \<Rightarrow>
   ('c, 'v, 's) overload_item \<times> ('c, 'v) warning list" where
  "append_all item [] = (item, [])"
| "append_all item (func # funcs) =
     (let (item1, warned1) = append_overload item func;
          (item2, warned2) = append_all item1 funcs
      in (item2, warned1 @ warned2))"

text \<open>\<^verbatim>\<open>OverloadItem.__call__\<close> and \<^verbatim>\<open>OverloadItem.help\<close>.\<close>

definition item_dispatcher ::
  "('c, 'v, 's) overload_item \<Rightarrow> ('c, 'v, 's) function_dispatcher" where
  "item_dispatcher item =
     \<lparr>dname = item_name item, overload_list = overloads item,
      signatures = item_signatures item\<rparr>"

definition item_call ::
  "('c, 'v) runtime \<Rightarrow> ('c, 'v, 's) overload_item \<Rightarrow> ('v, 's) pycall" where
  "item_call rt item args kwargs s = fn_call rt (item_dispatcher item) args kwargs s"

text \<open>
  \<^verbatim>\<open>func.__doc__ or ""\<close>: the docstring when there is one and it is not empty, the empty
  string otherwise.
\<close>

definition doc_or_empty :: "('c, 'v, 's) callable \<Rightarrow> string" where
  "doc_or_empty func = (case fdoc func of None \<Rightarrow> [] | Some d \<Rightarrow> if d \<noteq> [] then d else [])"

definition item_help ::
  "('c, 'v) runtime \<Rightarrow> ('c, 'v, 's) overload_item \<Rightarrow>
   'v list \<Rightarrow> (string \<times> 'v) list \<Rightarrow> pyexn + string" where
  "item_help rt item args kwargs =
     (case fn_best_match rt (item_dispatcher item) args kwargs of
        Inl e \<Rightarrow> Inl e
      | Inr func \<Rightarrow> Inr (doc_or_empty func))"

text \<open>\<^verbatim>\<open>OverloadItem.__get__\<close>, with the ancestor's method the new dispatcher would find.\<close>

definition item_get ::
  "('c, 'v, 's) overload_item \<Rightarrow> 'v \<Rightarrow> ('v, 's) pycall option \<Rightarrow>
   ('c, 'v, 's) bound_dispatcher" where
  "item_get item inst ancestor =
     \<lparr>dname = item_name item, overload_list = overloads item,
      signatures = item_signatures item, self_instance = inst, super_call = ancestor\<rparr>"

section \<open>The class body's dictionary\<close>

text \<open>
  The values a class body assigns: \<^verbatim>\<open>None\<close>, another object that is not callable, or a
  function. (Callable objects that are not functions are outside the model.) An entry of
  the dictionary is such a value or an \<^verbatim>\<open>OverloadItem\<close>.
\<close>

datatype ('c, 'v, 's) pyvalue =
    NoneValue
  | NonCallable 'v
  | Function "('c, 'v, 's) callable"

text \<open>\<^verbatim>\<open>callable(value)\<close>.\<close>

fun is_callable :: "('c, 'v, 's) pyvalue \<Rightarrow> bool" where
  "is_callable (Function func) = True"
| "is_callable v = False"

datatype ('c, 'v, 's) entry =
    Value "('c, 'v, 's) pyvalue"
  | Registry "('c, 'v, 's) overload_item"

type_synonym ('c, 'v, 's) overload_dict = "string \<Rightarrow> ('c, 'v, 's) entry option"

text \<open>
  \<^verbatim>\<open>OverloadDict.__setitem__\<close>. The first two equations are the branch
  \<^verbatim>\<open>if not callable(value)\<close>, which stores and returns. \<^verbatim>\<open>self.get(key, None)\<close> is
  \<^verbatim>\<open>None\<close> for a missing key and for a stored \<^verbatim>\<open>None\<close>. \<^verbatim>\<open>append\<close> changes the item in
  place; here the entry is replaced by the changed item.
\<close>

fun setitem ::
  "('c, 'v, 's) overload_dict \<Rightarrow> string \<Rightarrow> ('c, 'v, 's) pyvalue \<Rightarrow>
   pyexn + (('c, 'v, 's) overload_dict \<times> ('c, 'v) warning list)" where
  "setitem d key NoneValue = Inr (d(key \<mapsto> Value NoneValue), [])"
| "setitem d key (NonCallable v) = Inr (d(key \<mapsto> Value (NonCallable v)), [])"
| "setitem d key (Function func) =
     (case d key of
        None \<Rightarrow> Inr (d(key \<mapsto> Registry (OverloadItem func)), [])
      | Some (Value NoneValue) \<Rightarrow> Inr (d(key \<mapsto> Registry (OverloadItem func)), [])
      | Some (Registry current_value) \<Rightarrow>
          (let (item, warned) = append_overload current_value func
           in Inr (d(key \<mapsto> Registry item), warned))
      | Some (Value other) \<Rightarrow> Inl TypeError)"

section \<open>The parameter-count ranges of the specification\<close>

text \<open>
  The range of satisfiable parameter counts as the specification words it: the minimum
  is the number of parameters without a default, the maximum the number of parameters,
  or unbounded (\<open>None\<close>) when the signature has a variadic parameter. These three
  definitions follow the specification, not the code; they are what \<open>arity_mismatch\<close>
  is compared with.
\<close>

definition spec_min_count :: "('c, 'v) signature \<Rightarrow> nat" where
  "spec_min_count sg = length (filter (\<lambda>param. pdefault param = None) sg)"

definition spec_max_count :: "('c, 'v) signature \<Rightarrow> nat option" where
  "spec_max_count sg =
     (if list_ex (\<lambda>param. pkind param = VAR_POSITIONAL \<or> pkind param = VAR_KEYWORD) sg
      then None else Some (length sg))"

definition count_in_range :: "('c, 'v) signature \<Rightarrow> nat \<Rightarrow> bool" where
  "count_in_range sg k =
     (spec_min_count sg \<le> k \<and> (case spec_max_count sg of None \<Rightarrow> True | Some m \<Rightarrow> k \<le> m))"

text \<open>
  Two ranges intersect when the larger of the two minimums lies in both (lemma
  \<open>spec_ranges_intersect_iff\<close> below: exactly when some count lies in both).
\<close>

definition spec_ranges_intersect :: "('c, 'v) signature \<Rightarrow> ('c, 'v) signature \<Rightarrow> bool" where
  "spec_ranges_intersect sig1 sig2 =
     (let k = max (spec_min_count sig1) (spec_min_count sig2)
      in count_in_range sig1 k \<and> count_in_range sig2 k)"

section \<open>A runtime for the worked examples\<close>

text \<open>
  The theorems below hold for every runtime. Their worked examples run on this one: a
  few Python values and classes, and a \<open>bind\<close> that follows \<^verbatim>\<open>inspect.Signature.bind\<close>
  and \<^verbatim>\<open>apply_defaults\<close> for the parameter kinds of the examples (positional arguments
  first, then keywords, then defaults; \<^verbatim>\<open>*args\<close> takes the positional arguments left,
  \<^verbatim>\<open>**kwargs\<close> the keywords left; anything left over, missing or given twice is a
  \<^verbatim>\<open>TypeError\<close>).
\<close>

datatype pyval =
    PNone
  | PInt int
  | PStr string
  | PTuple "pyval list"
  | PDict "(string \<times> pyval) list"

datatype pyclass = CInt | CStr | CNoneType | CTuple | CDict

fun demo_isinstance :: "pyval \<Rightarrow> pyclass \<Rightarrow> bool" where
  "demo_isinstance PNone c = (c = CNoneType)"
| "demo_isinstance (PInt i) c = (c = CInt)"
| "demo_isinstance (PStr s) c = (c = CStr)"
| "demo_isinstance (PTuple xs) c = (c = CTuple)"
| "demo_isinstance (PDict kvs) c = (c = CDict)"

fun demo_iter :: "pyval \<Rightarrow> pyval list option" where
  "demo_iter (PTuple xs) = Some xs"
| "demo_iter v = None"

fun demo_values :: "pyval \<Rightarrow> pyval list option" where
  "demo_values (PDict kvs) = Some (map snd kvs)"
| "demo_values v = None"

fun demo_bind ::
  "(pyclass, pyval) signature \<Rightarrow> pyval list \<Rightarrow> (string \<times> pyval) list \<Rightarrow>
   (string \<times> pyval) list option" where
  "demo_bind [] args kwargs = (if args = [] \<and> kwargs = [] then Some [] else None)"
| "demo_bind (p # ps) args kwargs =
     (if pkind p = VAR_POSITIONAL then
        map_option (Cons (pname p, PTuple args)) (demo_bind ps [] kwargs)
      else if pkind p = VAR_KEYWORD then
        map_option (Cons (pname p, PDict kwargs)) (demo_bind ps args [])
      else if args \<noteq> [] \<and> pkind p \<noteq> KEYWORD_ONLY then
        (if pkind p \<noteq> POSITIONAL_ONLY \<and> map_of kwargs (pname p) \<noteq> None then None
         else map_option (Cons (pname p, hd args)) (demo_bind ps (tl args) kwargs))
      else if args \<noteq> [] then None
      else if pkind p \<noteq> POSITIONAL_ONLY \<and> map_of kwargs (pname p) \<noteq> None then
        map_option (Cons (pname p, the (map_of kwargs (pname p))))
          (demo_bind ps args (filter (\<lambda>kv. fst kv \<noteq> pname p) kwargs))
      else
        (case pdefault p of
           None \<Rightarrow> None
         | Some dv \<Rightarrow> map_option (Cons (pname p, dv)) (demo_bind ps args kwargs)))"

definition demo_runtime :: "(pyclass, pyval) runtime" where
  "demo_runtime =
     \<lparr>isinstance = demo_isinstance, iter_items = demo_iter, dict_values = demo_values,
      bind = demo_bind\<rparr>"

text \<open>
  Functions for the examples: a function returns its name as a string and leaves the
  state (a counter of calls) one higher.
\<close>

definition demo_function ::
  "string \<Rightarrow> string option \<Rightarrow> (pyclass, pyval) signature \<Rightarrow> (pyclass, pyval, nat) callable" where
  "demo_function n d sg =
     \<lparr>fname = n, fdoc = d, fsig = sg, body = (\<lambda>args kwargs s. (Inr (PStr n), Suc s))\<rparr>"

definition demo_raising ::
  "string \<Rightarrow> pyexn \<Rightarrow> (pyclass, pyval) signature \<Rightarrow> (pyclass, pyval, nat) callable" where
  "demo_raising n e sg =
     \<lparr>fname = n, fdoc = None, fsig = sg, body = (\<lambda>args kwargs s. (Inl e, Suc s))\<rparr>"

definition demo_param :: "string \<Rightarrow> pyclass hint \<Rightarrow> (pyclass, pyval) parameter" where
  "demo_param n h =
     \<lparr>pname = n, pkind = POSITIONAL_OR_KEYWORD, annotation = h, pdefault = None\<rparr>"

definition demo_param_default ::
  "string \<Rightarrow> pyclass hint \<Rightarrow> pyval \<Rightarrow> (pyclass, pyval) parameter" where
  "demo_param_default n h dv =
     \<lparr>pname = n, pkind = POSITIONAL_OR_KEYWORD, annotation = h, pdefault = Some dv\<rparr>"

definition demo_star_args :: "string \<Rightarrow> pyclass hint \<Rightarrow> (pyclass, pyval) parameter" where
  "demo_star_args n h = \<lparr>pname = n, pkind = VAR_POSITIONAL, annotation = h, pdefault = None\<rparr>"

section \<open>Notions used to state the properties\<close>

text \<open>
  What one candidate contributes to a call: \<open>None\<close> when \<^verbatim>\<open>sig.bind\<close> raises
  \<^verbatim>\<open>TypeError\<close> (the candidate is skipped), otherwise the outcome of
  \<^verbatim>\<open>_signature_matches\<close> on the bound arguments.
\<close>

definition cand_score ::
  "('c, 'v) runtime \<Rightarrow> 'v list \<Rightarrow> (string \<times> 'v) list \<Rightarrow> ('c, 'v) signature \<Rightarrow>
   (pyexn + int) option" where
  "cand_score rt args kwargs sg = map_option (signature_matches rt sg) (bind rt sg args kwargs)"

text \<open>
  A candidate's contribution compared with a score \<open>n\<close>: a candidate that does not
  bind, or whose scoring raises, has no score to compare.
\<close>

definition score_at_most :: "(pyexn + int) option \<Rightarrow> int \<Rightarrow> bool" where
  "score_at_most r n = (case r of Some (Inr m) \<Rightarrow> m \<le> n | _ \<Rightarrow> True)"

definition score_below :: "(pyexn + int) option \<Rightarrow> int \<Rightarrow> bool" where
  "score_below r n = (case r of Some (Inr m) \<Rightarrow> m < n | _ \<Rightarrow> True)"

text \<open>
  Candidate \<open>k\<close> of the list \<open>sgs\<close> has the score \<open>n\<close>, which is not negative; no
  candidate has a higher score; every candidate registered before \<open>k\<close> has a lower one.
\<close>

definition first_highest ::
  "('c, 'v) runtime \<Rightarrow> 'v list \<Rightarrow> (string \<times> 'v) list \<Rightarrow> ('c, 'v) signature list \<Rightarrow>
   nat \<Rightarrow> int \<Rightarrow> bool" where
  "first_highest rt args kwargs sgs k n =
     (k < length sgs \<and> 0 \<le> n \<and> cand_score rt args kwargs (sgs ! k) = Some (Inr n)
      \<and> list_all (\<lambda>sg. score_at_most (cand_score rt args kwargs sg) n) sgs
      \<and> list_all (\<lambda>sg. score_below (cand_score rt args kwargs sg) n) (take k sgs))"

text \<open>
  The same for the zipped list the loop runs over, by position: the function \<open>func\<close>
  stands at a place of \<open>cs\<close> with score \<open>n\<close>, all places before it score less and all
  places after it score at most \<open>n\<close>.
\<close>

definition selected_in ::
  "('c, 'v) runtime \<Rightarrow> 'v list \<Rightarrow> (string \<times> 'v) list \<Rightarrow>
   (('c, 'v, 's) callable \<times> ('c, 'v) signature) list \<Rightarrow> int \<Rightarrow> ('c, 'v, 's) callable \<Rightarrow> bool" where
  "selected_in rt args kwargs cs n func =
     (\<exists>pre c post. cs = pre @ c # post \<and> func = fst c
        \<and> cand_score rt args kwargs (snd c) = Some (Inr n)
        \<and> (\<forall>c'\<in>set pre. \<forall>m. cand_score rt args kwargs (snd c') = Some (Inr m) \<longrightarrow> m < n)
        \<and> (\<forall>c'\<in>set post. \<forall>m. cand_score rt args kwargs (snd c') = Some (Inr m) \<longrightarrow> m \<le> n))"

section \<open>The examples\<close>

text \<open>
  Two overloads of one function, \<^verbatim>\<open>f(x: int)\<close> and \<^verbatim>\<open>f(x: int | str)\<close>, registered in
  this order, and the dispatcher an \<^verbatim>\<open>OverloadItem\<close> builds for them.
\<close>

definition ex_f_int :: "(pyclass, pyval, nat) callable" where
  "ex_f_int = demo_function ''f_int'' (Some ''Takes an int.'') [demo_param ''x'' (Class CInt)]"

definition ex_f_int_or_str :: "(pyclass, pyval, nat) callable" where
  "ex_f_int_or_str =
     demo_function ''f_int_or_str'' None [demo_param ''x'' (Union [Class CInt, Class CStr])]"

definition ex_item :: "(pyclass, pyval, nat) overload_item" where
  "ex_item = fst (append_overload (OverloadItem ex_f_int) ex_f_int_or_str)"

definition ex_dispatcher :: "(pyclass, pyval, nat) function_dispatcher" where
  "ex_dispatcher = item_dispatcher ex_item"

text \<open>
  Two overloads of one method, \<^verbatim>\<open>m(self, x: int)\<close> and \<^verbatim>\<open>m(self, x: int | str)\<close>, and the
  bound dispatcher \<^verbatim>\<open>__get__\<close> builds for them; the instance is the string \<^verbatim>\<open>"obj"\<close>.
\<close>

definition ex_m_int :: "(pyclass, pyval, nat) callable" where
  "ex_m_int = demo_function ''m_int'' None [demo_param ''self'' Empty, demo_param ''x'' (Class CInt)]"

definition ex_m_int_or_str :: "(pyclass, pyval, nat) callable" where
  "ex_m_int_or_str =
     demo_function ''m_int_or_str'' None
       [demo_param ''self'' Empty, demo_param ''x'' (Union [Class CInt, Class CStr])]"

definition ex_method_item :: "(pyclass, pyval, nat) overload_item" where
  "ex_method_item = fst (append_overload (OverloadItem ex_m_int) ex_m_int_or_str)"

definition ex_bound :: "(pyval, nat) pycall option \<Rightarrow> (pyclass, pyval, nat) bound_dispatcher" where
  "ex_bound ancestor = item_get ex_method_item (PStr ''obj'') ancestor"

text \<open>
  The same method in an ancestor class, \<^verbatim>\<open>m(self, x)\<close>, as the bound method
  \<^verbatim>\<open>getattr(super(...), "m")\<close> gives: calling it binds the instance and the arguments
  to the signature, raises \<^verbatim>\<open>TypeError\<close> when they do not fit, and runs the body
  otherwise. One version returns, the other raises \<open>e\<close> from its body.
\<close>

definition demo_bound_method ::
  "(pyclass, pyval, nat) callable \<Rightarrow> pyval \<Rightarrow> (pyval, nat) pycall" where
  "demo_bound_method func inst args kwargs s =
     (case demo_bind (fsig func) (inst # args) kwargs of
        None \<Rightarrow> (Inl TypeError, s)
      | Some bound_args \<Rightarrow> body func (inst # args) kwargs s)"

definition ex_ancestor :: "(pyval, nat) pycall" where
  "ex_ancestor =
     demo_bound_method
       (demo_function ''base_m'' None [demo_param ''self'' Empty, demo_param ''x'' Empty])
       (PStr ''obj'')"

definition ex_ancestor_raising :: "pyexn \<Rightarrow> (pyval, nat) pycall" where
  "ex_ancestor_raising e =
     demo_bound_method
       (demo_raising ''base_m'' e [demo_param ''self'' Empty, demo_param ''x'' Empty])
       (PStr ''obj'')"

text \<open>Overloads whose bodies raise: a function \<^verbatim>\<open>g(x: int)\<close> and a method \<^verbatim>\<open>n(self, x: int)\<close>.\<close>

definition ex_raising_dispatcher :: "pyexn \<Rightarrow> (pyclass, pyval, nat) function_dispatcher" where
  "ex_raising_dispatcher e =
     item_dispatcher (OverloadItem (demo_raising ''g'' e [demo_param ''x'' (Class CInt)]))"

definition ex_raising_bound :: "pyexn \<Rightarrow> (pyclass, pyval, nat) bound_dispatcher" where
  "ex_raising_bound e =
     item_get
       (OverloadItem
          (demo_raising ''n'' e [demo_param ''self'' Empty, demo_param ''x'' (Class CInt)]))
       (PStr ''obj'') None"

text \<open>
  A function with a variadic parameter, \<^verbatim>\<open>f_var(*args: int)\<close>, alone in its registry.
\<close>

definition ex_f_var :: "(pyclass, pyval, nat) callable" where
  "ex_f_var = demo_function ''f_var'' None [demo_star_args ''args'' (Class CInt)]"

definition ex_var_dispatcher :: "(pyclass, pyval, nat) function_dispatcher" where
  "ex_var_dispatcher = item_dispatcher (OverloadItem ex_f_var)"

text \<open>
  The overloads \<^verbatim>\<open>k(x: int)\<close>, \<^verbatim>\<open>k(x: int, y: int = 0)\<close> and \<^verbatim>\<open>k(x: str)\<close>.
\<close>

definition ex_k_int :: "(pyclass, pyval, nat) callable" where
  "ex_k_int = demo_function ''k'' None [demo_param ''x'' (Class CInt)]"

definition ex_k_int_int :: "(pyclass, pyval, nat) callable" where
  "ex_k_int_int =
     demo_function ''k'' None
       [demo_param ''x'' (Class CInt), demo_param_default ''y'' (Class CInt) (PInt 0)]"

definition ex_k_str :: "(pyclass, pyval, nat) callable" where
  "ex_k_str = demo_function ''k'' None [demo_param ''x'' (Class CStr)]"

text \<open>
  Signatures without annotations: \<^verbatim>\<open>(*args)\<close>, \<^verbatim>\<open>(a, b)\<close>, \<^verbatim>\<open>(a, b=1, c=2, d=3)\<close> and
  \<^verbatim>\<open>(a, b, c=0)\<close>.
\<close>

definition ex_sig_star :: "(pyclass, pyval) signature" where
  "ex_sig_star = [demo_star_args ''args'' Empty]"

definition ex_sig_ab :: "(pyclass, pyval) signature" where
  "ex_sig_ab = [demo_param ''a'' Empty, demo_param ''b'' Empty]"

definition ex_sig_a_bcd :: "(pyclass, pyval) signature" where
  "ex_sig_a_bcd =
     [demo_param ''a'' Empty, demo_param_default ''b'' Empty (PInt 1),
      demo_param_default ''c'' Empty (PInt 2), demo_param_default ''d'' Empty (PInt 3)]"

definition ex_sig_ab_c :: "(pyclass, pyval) signature" where
  "ex_sig_ab_c =
     [demo_param ''a'' Empty, demo_param ''b'' Empty, demo_param_default ''c'' Empty (PInt 0)]"

text \<open>
  The dictionary of a class body after \<^verbatim>\<open>def m(self, x: int)\<close>: the name \<^verbatim>\<open>m\<close> holds a
  registry.
\<close>

definition ex_class_dict :: "(pyclass, pyval, nat) overload_dict" where
  "ex_class_dict = Map.empty(''m'' \<mapsto> Registry (OverloadItem ex_m_int))"

section \<open>Properties of the dispatch loop\<close>

text \<open>
  A signature's score is -1 or not negative. Scoring raises nothing when every bound
  name is a parameter of the signature, the value bound to a \<^verbatim>\<open>*args\<close> parameter can
  be iterated over and the value bound to a \<^verbatim>\<open>**kwargs\<close> parameter has \<^verbatim>\<open>values()\<close>, as
  \<^verbatim>\<open>inspect\<close> binds them.
\<close>

lemma signature_matches_loop_range:
  "0 \<le> score \<Longrightarrow> signature_matches_loop rt sg bound_args score = Inr n \<Longrightarrow> n = - 1 \<or> score \<le> n"
proof (induction bound_args arbitrary: score)
  case Nil
  then show ?case by simp
next
  case (Cons item rest)
  obtain name arg where item: "item = (name, arg)" by (cases item)
  from Cons.prems(2) obtain param partial_score where
    p: "parameters_get sg name = Some param"
       "score_any_type_hint rt arg param = Inr partial_score"
    unfolding item by (auto split: option.splits sum.splits)
  show ?case
  proof (cases "partial_score < 0")
    case True
    with Cons.prems(2) p show ?thesis unfolding item by simp
  next
    case False
    with Cons.prems(2) p have
      "signature_matches_loop rt sg rest (score + partial_score) = Inr n"
      unfolding item by simp
    from Cons.IH[OF _ this] False Cons.prems(1) show ?thesis by auto
  qed
qed

lemma signature_matches_range:
  "signature_matches rt sg bound_args = Inr n \<Longrightarrow> n = - 1 \<or> 0 \<le> n"
  unfolding signature_matches_def using signature_matches_loop_range[of 0] by blast

lemma signature_matches_loop_no_error:
  assumes "\<forall>(name, arg)\<in>set bound_args. \<exists>param. parameters_get sg name = Some param
            \<and> (pkind param = VAR_POSITIONAL \<longrightarrow> iter_items rt arg \<noteq> None)
            \<and> (pkind param = VAR_KEYWORD \<longrightarrow> dict_values rt arg \<noteq> None)"
  shows "\<exists>n. signature_matches_loop rt sg bound_args score = Inr n"
  using assms
proof (induction bound_args arbitrary: score)
  case Nil
  then show ?case by simp
next
  case (Cons item rest)
  obtain name arg where item: "item = (name, arg)" by (cases item)
  from Cons.prems item obtain param where
    p: "parameters_get sg name = Some param"
       "pkind param = VAR_POSITIONAL \<longrightarrow> iter_items rt arg \<noteq> None"
       "pkind param = VAR_KEYWORD \<longrightarrow> dict_values rt arg \<noteq> None"
    by auto
  from p(2,3) have "\<exists>partial_score. score_any_type_hint rt arg param = Inr partial_score"
    by (cases "pkind param = VAR_POSITIONAL"; cases "pkind param = VAR_KEYWORD")
       (auto simp: score_any_type_hint_def Let_def)
  then obtain partial_score where
    s: "score_any_type_hint rt arg param = Inr partial_score" by blast
  from Cons.prems have "\<exists>n. signature_matches_loop rt sg rest (score + partial_score) = Inr n"
    by (intro Cons.IH) simp
  with p(1) s show ?case unfolding item by simp
qed

lemma cand_score_no_error:
  assumes "\<forall>bound_args. bind rt sg args kwargs = Some bound_args \<longrightarrow>
     (\<forall>(name, arg)\<in>set bound_args. \<exists>param. parameters_get sg name = Some param
            \<and> (pkind param = VAR_POSITIONAL \<longrightarrow> iter_items rt arg \<noteq> None)
            \<and> (pkind param = VAR_KEYWORD \<longrightarrow> dict_values rt arg \<noteq> None))"
  shows "cand_score rt args kwargs sg \<noteq> Some (Inl e)"
proof (cases "bind rt sg args kwargs")
  case None
  then show ?thesis by (simp add: cand_score_def)
next
  case (Some bound_args)
  with assms signature_matches_loop_no_error[of bound_args sg rt 0]
  obtain n where "signature_matches rt sg bound_args = Inr n"
    unfolding signature_matches_def by blast
  with Some show ?thesis by (simp add: cand_score_def)
qed

text \<open>The loop of \<^verbatim>\<open>best_match\<close>, one candidate at a time.\<close>

lemma best_match_loop_step:
  "best_match_loop rt args kwargs ((func, sg) # rest) bs bf =
     (case cand_score rt args kwargs sg of
        None \<Rightarrow> best_match_loop rt args kwargs rest bs bf
      | Some (Inl e) \<Rightarrow> Inl e
      | Some (Inr n) \<Rightarrow>
          if n > bs then best_match_loop rt args kwargs rest n (Some func)
          else best_match_loop rt args kwargs rest bs bf)"
  by (simp add: cand_score_def split: option.splits sum.splits)

lemma best_match_loop_unchanged:
  "\<forall>c\<in>set cs. cand_score rt args kwargs (snd c) = None
       \<or> (\<exists>n\<le>bs. cand_score rt args kwargs (snd c) = Some (Inr n))
   \<Longrightarrow> best_match_loop rt args kwargs cs bs bf = Inr (bs, bf)"
proof (induction cs)
  case Nil
  then show ?case by simp
next
  case (Cons c cs)
  obtain func sg where c: "c = (func, sg)" by (cases c)
  from Cons.prems have rest: "best_match_loop rt args kwargs cs bs bf = Inr (bs, bf)"
    by (intro Cons.IH) simp
  from Cons.prems c have "cand_score rt args kwargs sg = None
       \<or> (\<exists>n\<le>bs. cand_score rt args kwargs sg = Some (Inr n))" by simp
  then show ?case
    unfolding c best_match_loop_step using rest by auto
qed

lemma selected_in_here:
  assumes "cand_score rt args kwargs (snd c) = Some (Inr n)"
    and "\<forall>c'\<in>set cs. \<forall>m. cand_score rt args kwargs (snd c') = Some (Inr m) \<longrightarrow> m \<le> n"
  shows "selected_in rt args kwargs (c # cs) n (fst c)"
  unfolding selected_in_def
proof (intro exI conjI)
  show "c # cs = [] @ c # cs" by simp
qed (use assms in simp_all)

lemma selected_in_later:
  assumes "selected_in rt args kwargs cs n func"
    and "\<forall>m. cand_score rt args kwargs (snd c) = Some (Inr m) \<longrightarrow> m < n"
  shows "selected_in rt args kwargs (c # cs) n func"
proof -
  from assms(1) obtain pre c0 post where p: "cs = pre @ c0 # post" "func = fst c0"
      "cand_score rt args kwargs (snd c0) = Some (Inr n)"
      "\<forall>c'\<in>set pre. \<forall>m. cand_score rt args kwargs (snd c') = Some (Inr m) \<longrightarrow> m < n"
      "\<forall>c'\<in>set post. \<forall>m. cand_score rt args kwargs (snd c') = Some (Inr m) \<longrightarrow> m \<le> n"
    unfolding selected_in_def by blast
  show ?thesis
    unfolding selected_in_def
  proof (intro exI conjI)
    show "c # cs = (c # pre) @ c0 # post" using p(1) by simp
    show "\<forall>c'\<in>set (c # pre). \<forall>m. cand_score rt args kwargs (snd c') = Some (Inr m) \<longrightarrow> m < n"
      using p(4) assms(2) by simp
  qed (use p in simp_all)
qed

lemma best_match_loop_selects:
  assumes "\<forall>c\<in>set cs. \<forall>e. cand_score rt args kwargs (snd c) \<noteq> Some (Inl e)"
  shows "\<exists>bs' bf'. best_match_loop rt args kwargs cs bs bf = Inr (bs', bf') \<and>
     ((bs' = bs \<and> bf' = bf
        \<and> (\<forall>c\<in>set cs. \<forall>m. cand_score rt args kwargs (snd c) = Some (Inr m) \<longrightarrow> m \<le> bs))
      \<or> (bs < bs' \<and> (\<exists>func. bf' = Some func \<and> selected_in rt args kwargs cs bs' func)))"
  using assms
proof (induction cs arbitrary: bs bf)
  case Nil
  then show ?case by simp
next
  case (Cons c cs)
  obtain func sg where c: "c = (func, sg)" by (cases c)
  let ?sc = "\<lambda>c. cand_score rt args kwargs (snd c)"
  from Cons.prems have noerr: "\<forall>c\<in>set cs. \<forall>e. ?sc c \<noteq> Some (Inl e)" by simp
  from Cons.prems c have noerr_c: "\<forall>e. cand_score rt args kwargs sg \<noteq> Some (Inl e)" by simp
  consider (nobind) "cand_score rt args kwargs sg = None"
    | (better) n where "cand_score rt args kwargs sg = Some (Inr n)" "bs < n"
    | (worse) n where "cand_score rt args kwargs sg = Some (Inr n)" "n \<le> bs"
  proof (cases "cand_score rt args kwargs sg")
    case None
    then show ?thesis using nobind by simp
  next
    case (Some a)
    show ?thesis
    proof (cases a)
      case (Inl e)
      with Some noerr_c show ?thesis by simp
    next
      case (Inr n)
      with Some better worse show ?thesis by (cases "bs < n") auto
    qed
  qed
  then show ?case
  proof cases
    case nobind
    then have step: "best_match_loop rt args kwargs (c # cs) bs bf = best_match_loop rt args kwargs cs bs bf"
      unfolding c best_match_loop_step by simp
    from Cons.IH[OF noerr, of bs bf] obtain bs' bf' where
      r: "best_match_loop rt args kwargs cs bs bf = Inr (bs', bf')" and
      d: "(bs' = bs \<and> bf' = bf \<and> (\<forall>c\<in>set cs. \<forall>m. ?sc c = Some (Inr m) \<longrightarrow> m \<le> bs))
        \<or> (bs < bs' \<and> (\<exists>func. bf' = Some func \<and> selected_in rt args kwargs cs bs' func))"
      by blast
    from d show ?thesis
    proof
      assume "bs' = bs \<and> bf' = bf \<and> (\<forall>c\<in>set cs. \<forall>m. ?sc c = Some (Inr m) \<longrightarrow> m \<le> bs)"
      then show ?thesis using step r nobind c by auto
    next
      assume a: "bs < bs' \<and> (\<exists>func. bf' = Some func \<and> selected_in rt args kwargs cs bs' func)"
      then obtain g where g: "bf' = Some g" "selected_in rt args kwargs cs bs' g" by blast
      have "selected_in rt args kwargs (c # cs) bs' g"
        using g(2) nobind c by (intro selected_in_later) simp_all
      then show ?thesis using step r g(1) a by simp
    qed
  next
    case better
    then have step: "best_match_loop rt args kwargs (c # cs) bs bf = best_match_loop rt args kwargs cs n (Some func)"
      unfolding c best_match_loop_step by simp
    from Cons.IH[OF noerr, of n "Some func"] obtain bs' bf' where
      r: "best_match_loop rt args kwargs cs n (Some func) = Inr (bs', bf')" and
      d: "(bs' = n \<and> bf' = Some func \<and> (\<forall>c\<in>set cs. \<forall>m. ?sc c = Some (Inr m) \<longrightarrow> m \<le> n))
        \<or> (n < bs' \<and> (\<exists>func. bf' = Some func \<and> selected_in rt args kwargs cs bs' func))"
      by blast
    from d show ?thesis
    proof
      assume a: "bs' = n \<and> bf' = Some func \<and> (\<forall>c\<in>set cs. \<forall>m. ?sc c = Some (Inr m) \<longrightarrow> m \<le> n)"
      have "selected_in rt args kwargs (c # cs) n (fst c)"
        using a better c by (intro selected_in_here) simp_all
      then show ?thesis using step r a better(2) c by simp
    next
      assume a: "n < bs' \<and> (\<exists>func. bf' = Some func \<and> selected_in rt args kwargs cs bs' func)"
      then obtain g where g: "bf' = Some g" "selected_in rt args kwargs cs bs' g" by blast
      have "selected_in rt args kwargs (c # cs) bs' g"
        using g(2) better a c by (intro selected_in_later) simp_all
      then show ?thesis using step r g(1) a better(2) by simp
    qed
  next
    case worse
    then have step: "best_match_loop rt args kwargs (c # cs) bs bf = best_match_loop rt args kwargs cs bs bf"
      unfolding c best_match_loop_step by simp
    from Cons.IH[OF noerr, of bs bf] obtain bs' bf' where
      r: "best_match_loop rt args kwargs cs bs bf = Inr (bs', bf')" and
      d: "(bs' = bs \<and> bf' = bf \<and> (\<forall>c\<in>set cs. \<forall>m. ?sc c = Some (Inr m) \<longrightarrow> m \<le> bs))
        \<or> (bs < bs' \<and> (\<exists>func. bf' = Some func \<and> selected_in rt args kwargs cs bs' func))"
      by blast
    from d show ?thesis
    proof
      assume "bs' = bs \<and> bf' = bf \<and> (\<forall>c\<in>set cs. \<forall>m. ?sc c = Some (Inr m) \<longrightarrow> m \<le> bs)"
      then show ?thesis using step r worse c by auto
    next
      assume a: "bs < bs' \<and> (\<exists>func. bf' = Some func \<and> selected_in rt args kwargs cs bs' func)"
      then obtain g where g: "bf' = Some g" "selected_in rt args kwargs cs bs' g" by blast
      have "selected_in rt args kwargs (c # cs) bs' g"
        using g(2) worse a c by (intro selected_in_later) simp_all
      then show ?thesis using step r g(1) a by simp
    qed
  qed
qed

lemma selected_in_first_highest:
  assumes len: "length fs = length sgs"
    and sel: "selected_in rt args kwargs (zip fs sgs) n func"
    and nn: "0 \<le> n"
  shows "\<exists>k<length fs. first_highest rt args kwargs sgs k n \<and> func = fs ! k"
proof -
  let ?sc = "\<lambda>sg. cand_score rt args kwargs sg"
  from sel obtain pre c post where p: "zip fs sgs = pre @ c # post" "func = fst c"
      "?sc (snd c) = Some (Inr n)"
      "\<forall>c'\<in>set pre. \<forall>m. ?sc (snd c') = Some (Inr m) \<longrightarrow> m < n"
      "\<forall>c'\<in>set post. \<forall>m. ?sc (snd c') = Some (Inr m) \<longrightarrow> m \<le> n"
    unfolding selected_in_def by blast
  define k where "k = length pre"
  have lz: "length (zip fs sgs) = length sgs" using len by simp
  have "length (pre @ c # post) = length sgs" using p(1) lz by simp
  then have lsum: "length sgs = length pre + Suc (length post)" by simp
  have klt: "k < length sgs" using lsum unfolding k_def by simp
  have nth_zip: "(pre @ c # post) ! j = (fs ! j, sgs ! j)" if "j < length sgs" for j
  proof -
    have "zip fs sgs ! j = (fs ! j, sgs ! j)" using that len by simp
    then show ?thesis using p(1) by simp
  qed
  have ck: "c = (fs ! k, sgs ! k)"
    using nth_zip[OF klt] unfolding k_def by simp
  have before: "\<forall>j<k. \<forall>m. ?sc (sgs ! j) = Some (Inr m) \<longrightarrow> m < n"
  proof (intro allI impI)
    fix j m assume j: "j < k" and m: "?sc (sgs ! j) = Some (Inr m)"
    have "(pre @ c # post) ! j = pre ! j" using j unfolding k_def by (simp add: nth_append)
    moreover have "(pre @ c # post) ! j = (fs ! j, sgs ! j)" using nth_zip j klt by simp
    ultimately have "(fs ! j, sgs ! j) = pre ! j" by simp
    moreover have "pre ! j \<in> set pre" using j unfolding k_def by simp
    ultimately have "(fs ! j, sgs ! j) \<in> set pre" by simp
    from p(4)[rule_format, OF this, of m] m show "m < n" by simp
  qed
  have all: "\<forall>j<length sgs. \<forall>m. ?sc (sgs ! j) = Some (Inr m) \<longrightarrow> m \<le> n"
  proof (intro allI impI)
    fix j m assume j: "j < length sgs" and m: "?sc (sgs ! j) = Some (Inr m)"
    consider "j < k" | "j = k" | "k < j" by linarith
    then show "m \<le> n"
    proof cases
      case 1
      from before[rule_format, OF 1, of m] m show ?thesis by simp
    next
      case 2
      with m p(3) ck show ?thesis by simp
    next
      case 3
      then obtain i where i: "j = k + Suc i" using less_iff_Suc_add by auto
      have "(pre @ c # post) ! j = post ! i" unfolding i k_def by (simp add: nth_append)
      moreover have il: "i < length post" using j lsum unfolding i k_def by simp
      moreover have "(pre @ c # post) ! j = (fs ! j, sgs ! j)" using nth_zip j by simp
      ultimately have "(fs ! j, sgs ! j) = post ! i" by simp
      moreover have "post ! i \<in> set post" using il by simp
      ultimately have "(fs ! j, sgs ! j) \<in> set post" by simp
      from p(5)[rule_format, OF this, of m] m show ?thesis by simp
    qed
  qed
  have all': "list_all (\<lambda>sg. score_at_most (?sc sg) n) sgs"
    unfolding list_all_length score_at_most_def using all
    by (auto split: option.splits sum.splits)
  have before': "list_all (\<lambda>sg. score_below (?sc sg) n) (take k sgs)"
    unfolding list_all_length score_below_def using before klt
    by (auto split: option.splits sum.splits)
  have "first_highest rt args kwargs sgs k n"
    unfolding first_highest_def using klt nn p(3) ck all' before' by simp
  moreover have "func = fs ! k" using p(2) ck by simp
  ultimately show ?thesis using klt len by auto
qed

lemma best_match_loop_first_highest:
  assumes len: "length fs = length sgs"
    and noerr: "\<forall>sg\<in>set sgs. \<forall>e. cand_score rt args kwargs sg \<noteq> Some (Inl e)"
    and some: "\<exists>sg\<in>set sgs. \<exists>n\<ge>0. cand_score rt args kwargs sg = Some (Inr n)"
  shows "\<exists>k<length fs. \<exists>n. first_highest rt args kwargs sgs k n
           \<and> best_match_result (best_match_loop rt args kwargs (zip fs sgs) (- 1) None) = Inr (fs ! k)"
proof -
  let ?sc = "\<lambda>sg. cand_score rt args kwargs sg"
  have "map snd (zip fs sgs) = sgs" using len by simp
  then have "set (map snd (zip fs sgs)) = set sgs" by simp
  then have snd_zip: "snd ` set (zip fs sgs) = set sgs" by simp
  have noerr': "\<forall>c\<in>set (zip fs sgs). \<forall>e. ?sc (snd c) \<noteq> Some (Inl e)"
  proof
    fix c assume "c \<in> set (zip fs sgs)"
    then have "snd c \<in> set sgs" using snd_zip by blast
    with noerr show "\<forall>e. ?sc (snd c) \<noteq> Some (Inl e)" by simp
  qed
  from best_match_loop_selects[OF noerr', of "- 1" None] obtain bs' bf' where
    r: "best_match_loop rt args kwargs (zip fs sgs) (- 1) None = Inr (bs', bf')" and
    d: "(bs' = - 1 \<and> bf' = None
          \<and> (\<forall>c\<in>set (zip fs sgs). \<forall>m. ?sc (snd c) = Some (Inr m) \<longrightarrow> m \<le> - 1))
        \<or> (- 1 < bs' \<and> (\<exists>func. bf' = Some func \<and> selected_in rt args kwargs (zip fs sgs) bs' func))"
    by blast
  from some obtain sg n where sg: "sg \<in> set sgs" "0 \<le> n" "?sc sg = Some (Inr n)" by blast
  from sg(1) snd_zip have "sg \<in> snd ` set (zip fs sgs)" by simp
  then obtain c where c: "c \<in> set (zip fs sgs)" "snd c = sg" by (auto simp: image_iff)
  have "\<not> (\<forall>c\<in>set (zip fs sgs). \<forall>m. ?sc (snd c) = Some (Inr m) \<longrightarrow> m \<le> - 1)"
  proof
    assume "\<forall>c\<in>set (zip fs sgs). \<forall>m. ?sc (snd c) = Some (Inr m) \<longrightarrow> m \<le> - 1"
    from this[rule_format, OF c(1), of n] c(2) sg(3) have "n \<le> - 1" by simp
    with sg(2) show False by simp
  qed
  with d have "- 1 < bs' \<and> (\<exists>func. bf' = Some func \<and> selected_in rt args kwargs (zip fs sgs) bs' func)"
    by simp
  then obtain func where f: "- 1 < bs'" "bf' = Some func" "selected_in rt args kwargs (zip fs sgs) bs' func"
    by auto
  from f(1) have "0 \<le> bs'" by simp
  from selected_in_first_highest[OF len f(3) this] obtain k where
    k: "k < length fs" "first_highest rt args kwargs sgs k bs'" "func = fs ! k" by auto
  have "best_match_result (best_match_loop rt args kwargs (zip fs sgs) (- 1) None) = Inr (fs ! k)"
    using r f(2) k(3) by (simp add: best_match_result_def)
  with k show ?thesis by blast
qed

lemma best_match_loop_no_match:
  assumes "\<forall>sg\<in>set sgs. cand_score rt args kwargs sg = None
             \<or> (\<exists>n<0. cand_score rt args kwargs sg = Some (Inr n))"
  shows "best_match_result (best_match_loop rt args kwargs (zip fs sgs) (- 1) None)
           = Inl NoMatchingOverloadException"
proof -
  have "\<forall>c\<in>set (zip fs sgs). cand_score rt args kwargs (snd c) = None
       \<or> (\<exists>n\<le>- 1. cand_score rt args kwargs (snd c) = Some (Inr n))"
  proof
    fix c assume "c \<in> set (zip fs sgs)"
    then have "(fst c, snd c) \<in> set (zip fs sgs)" by simp
    then have "snd c \<in> set sgs" by (rule set_zip_rightD)
    with assms have "cand_score rt args kwargs (snd c) = None
       \<or> (\<exists>n<0. cand_score rt args kwargs (snd c) = Some (Inr n))" by simp
    then show "cand_score rt args kwargs (snd c) = None
       \<or> (\<exists>n\<le>- 1. cand_score rt args kwargs (snd c) = Some (Inr n))" by auto
  qed
  then have "best_match_loop rt args kwargs (zip fs sgs) (- 1) None = Inr (- 1, None)"
    by (rule best_match_loop_unchanged)
  then show ?thesis by (simp add: best_match_result_def)
qed

section \<open>Evaluating the examples\<close>

text \<open>The definitions a worked example unfolds.\<close>

lemmas demo_simps =
  demo_runtime_def demo_function_def demo_raising_def demo_param_def demo_param_default_def
  demo_star_args_def signature_def cand_score_def signature_matches_def parameters_get_def
  score_any_type_hint_def Let_def OverloadItem_def append_overload_def item_dispatcher_def item_get_def
  ex_f_int_def ex_f_int_or_str_def ex_item_def ex_dispatcher_def
  ex_m_int_def ex_m_int_or_str_def ex_method_item_def ex_bound_def demo_bound_method_def
  ex_ancestor_def ex_ancestor_raising_def ex_raising_dispatcher_def ex_raising_bound_def
  ex_f_var_def ex_var_dispatcher_def ex_k_int_def ex_k_int_int_def ex_k_str_def
  ex_sig_star_def ex_sig_ab_def ex_sig_a_bcd_def ex_sig_ab_c_def ex_class_dict_def

section \<open>The claims\<close>

text \<open>
  C2. A call on a free-function dispatcher for which every candidate either does not
  bind (\<open>cand_score = None\<close>) or binds and scores REJECT, that is -1, raises
  \<^verbatim>\<open>NoMatchingOverloadException\<close>, and no candidate is invoked: \<^verbatim>\<open>best_match\<close> raises,
  and the call leaves the state as it found it, whatever the bodies of the candidates
  would do.
\<close>

theorem no_matching_overload_raised:
  assumes "\<forall>sg\<in>set (signatures d). cand_score rt args kwargs sg = None
             \<or> cand_score rt args kwargs sg = Some (Inr (- 1))"
  shows "fn_best_match rt d args kwargs = Inl NoMatchingOverloadException
       \<and> fn_call rt d args kwargs s = (Inl NoMatchingOverloadException, s)"
proof -
  from assms have "\<forall>sg\<in>set (signatures d). cand_score rt args kwargs sg = None
             \<or> (\<exists>n<0. cand_score rt args kwargs sg = Some (Inr n))" by auto
  then have "fn_best_match rt d args kwargs = Inl NoMatchingOverloadException"
    unfolding fn_best_match_def by (rule best_match_loop_no_match)
  then show ?thesis by (simp add: fn_call_def)
qed

theorem no_matching_overload_raised_witness:
  "(fn_best_match demo_runtime ex_dispatcher [PNone] [] = Inl NoMatchingOverloadException
    \<and> fn_call demo_runtime ex_dispatcher [PNone] [] (0::nat) = (Inl NoMatchingOverloadException, 0))
   \<and> (fn_best_match demo_runtime ex_dispatcher [PInt 1, PInt 2] [] = Inl NoMatchingOverloadException
    \<and> fn_call demo_runtime ex_dispatcher [PInt 1, PInt 2] [] (0::nat) = (Inl NoMatchingOverloadException, 0))
   \<and> cand_score demo_runtime [PNone] [] (signature ex_f_int) = Some (Inr (- 1))
   \<and> cand_score demo_runtime [PInt 1, PInt 2] [] (signature ex_f_int) = None"
proof -
  have h1: "\<forall>sg\<in>set (signatures ex_dispatcher). cand_score demo_runtime [PNone] [] sg = None
             \<or> cand_score demo_runtime [PNone] [] sg = Some (Inr (- 1))"
    by (simp add: demo_simps)
  have h2: "\<forall>sg\<in>set (signatures ex_dispatcher). cand_score demo_runtime [PInt 1, PInt 2] [] sg = None
             \<or> cand_score demo_runtime [PInt 1, PInt 2] [] sg = Some (Inr (- 1))"
    by (simp add: demo_simps)
  have e1: "cand_score demo_runtime [PNone] [] (signature ex_f_int) = Some (Inr (- 1))"
    by (simp add: demo_simps)
  have e2: "cand_score demo_runtime [PInt 1, PInt 2] [] (signature ex_f_int) = None"
    by (simp add: demo_simps)
  show ?thesis
    using no_matching_overload_raised[OF h1, of 0] no_matching_overload_raised[OF h2, of 0] e1 e2
    by (intro conjI) blast+
qed

text \<open>The two example registries, as the dispatchers see them, and the scores of a call.\<close>

lemma ex_scores:
  "cand_score demo_runtime [PInt 1] [] (signature ex_f_int) = Some (Inr 1)"
  "cand_score demo_runtime [PInt 1] [] (signature ex_f_int_or_str) = Some (Inr 1)"
  "cand_score demo_runtime [PStr ''obj'', PInt 1] [] (signature ex_m_int) = Some (Inr 1)"
  "cand_score demo_runtime [PStr ''obj'', PInt 1] [] (signature ex_m_int_or_str) = Some (Inr 1)"
  by (simp_all add: demo_simps)

lemma ex_lists:
  "overload_list ex_dispatcher = [ex_f_int, ex_f_int_or_str]"
  "signatures ex_dispatcher = [signature ex_f_int, signature ex_f_int_or_str]"
  "overload_list (ex_bound anc) = [ex_m_int, ex_m_int_or_str]"
  "signatures (ex_bound anc) = [signature ex_m_int, signature ex_m_int_or_str]"
  "self_instance (ex_bound anc) = PStr ''obj''"
  "super_call (ex_bound anc) = anc"
  by (simp_all add: ex_dispatcher_def ex_item_def ex_bound_def ex_method_item_def
      item_dispatcher_def item_get_def append_overload_def OverloadItem_def Let_def)

text \<open>
  C1. When the two lists of a dispatcher have the same length (as every
  \<^verbatim>\<open>OverloadItem\<close> keeps them), scoring raises no exception and some candidate binds
  with a score that is not negative, \<^verbatim>\<open>best_match\<close> returns the candidate \<open>k\<close> with the
  highest score, the earliest-registered one among those with that score
  (\<open>first_highest\<close>), and \<^verbatim>\<open>__call__\<close> is the call of that candidate's body with the
  caller's arguments. The first conjunct is the free-function dispatcher, the second the
  bound dispatcher, which binds and calls with the instance in front.
\<close>

theorem dispatch_selects_first_highest:
  "(length (overload_list fd) = length (signatures fd)
      \<and> (\<forall>sg\<in>set (signatures fd). \<forall>e. cand_score rt args kwargs sg \<noteq> Some (Inl e))
      \<and> (\<exists>sg\<in>set (signatures fd). \<exists>n\<ge>0. cand_score rt args kwargs sg = Some (Inr n))
    \<longrightarrow> (\<exists>k<length (overload_list fd). \<exists>n.
           first_highest rt args kwargs (signatures fd) k n
         \<and> fn_best_match rt fd args kwargs = Inr (overload_list fd ! k)
         \<and> fn_call rt fd args kwargs s = body (overload_list fd ! k) args kwargs s))
   \<and> (length (overload_list bd) = length (signatures bd)
      \<and> (\<forall>sg\<in>set (signatures bd). \<forall>e.
             cand_score rt (self_instance bd # args) kwargs sg \<noteq> Some (Inl e))
      \<and> (\<exists>sg\<in>set (signatures bd). \<exists>n\<ge>0.
             cand_score rt (self_instance bd # args) kwargs sg = Some (Inr n))
    \<longrightarrow> (\<exists>k<length (overload_list bd). \<exists>n.
           first_highest rt (self_instance bd # args) kwargs (signatures bd) k n
         \<and> bound_best_match rt bd args kwargs = Inr (overload_list bd ! k)
         \<and> bound_call rt bd args kwargs s
             = body (overload_list bd ! k) (self_instance bd # args) kwargs s))"
proof (intro conjI impI)
  assume a: "length (overload_list fd) = length (signatures fd)
      \<and> (\<forall>sg\<in>set (signatures fd). \<forall>e. cand_score rt args kwargs sg \<noteq> Some (Inl e))
      \<and> (\<exists>sg\<in>set (signatures fd). \<exists>n\<ge>0. cand_score rt args kwargs sg = Some (Inr n))"
  then have a1: "length (overload_list fd) = length (signatures fd)"
    and a2: "\<forall>sg\<in>set (signatures fd). \<forall>e. cand_score rt args kwargs sg \<noteq> Some (Inl e)"
    and a3: "\<exists>sg\<in>set (signatures fd). \<exists>n\<ge>0. cand_score rt args kwargs sg = Some (Inr n)"
    by blast+
  from best_match_loop_first_highest[OF a1 a2 a3] obtain k n where
    k: "k < length (overload_list fd)" "first_highest rt args kwargs (signatures fd) k n"
       "fn_best_match rt fd args kwargs = Inr (overload_list fd ! k)"
    unfolding fn_best_match_def by blast
  from k(3) have "fn_call rt fd args kwargs s = body (overload_list fd ! k) args kwargs s"
    by (simp add: fn_call_def)
  with k show "\<exists>k<length (overload_list fd). \<exists>n.
           first_highest rt args kwargs (signatures fd) k n
         \<and> fn_best_match rt fd args kwargs = Inr (overload_list fd ! k)
         \<and> fn_call rt fd args kwargs s = body (overload_list fd ! k) args kwargs s"
    by blast
next
  let ?args = "self_instance bd # args"
  assume a: "length (overload_list bd) = length (signatures bd)
      \<and> (\<forall>sg\<in>set (signatures bd). \<forall>e. cand_score rt ?args kwargs sg \<noteq> Some (Inl e))
      \<and> (\<exists>sg\<in>set (signatures bd). \<exists>n\<ge>0. cand_score rt ?args kwargs sg = Some (Inr n))"
  then have a1: "length (overload_list bd) = length (signatures bd)"
    and a2: "\<forall>sg\<in>set (signatures bd). \<forall>e. cand_score rt ?args kwargs sg \<noteq> Some (Inl e)"
    and a3: "\<exists>sg\<in>set (signatures bd). \<exists>n\<ge>0. cand_score rt ?args kwargs sg = Some (Inr n)"
    by blast+
  from best_match_loop_first_highest[OF a1 a2 a3] obtain k n where
    k: "k < length (overload_list bd)" "first_highest rt ?args kwargs (signatures bd) k n"
       "bound_best_match rt bd args kwargs = Inr (overload_list bd ! k)"
    unfolding bound_best_match_def by blast
  from k(3) have "bound_call rt bd args kwargs s = body (overload_list bd ! k) ?args kwargs s"
    by (simp add: bound_call_def)
  with k show "\<exists>k<length (overload_list bd). \<exists>n.
           first_highest rt ?args kwargs (signatures bd) k n
         \<and> bound_best_match rt bd args kwargs = Inr (overload_list bd ! k)
         \<and> bound_call rt bd args kwargs s = body (overload_list bd ! k) ?args kwargs s"
    by blast
qed

theorem dispatch_selects_first_highest_witness:
  "(\<exists>k<length (overload_list ex_dispatcher). \<exists>n.
        first_highest demo_runtime [PInt 1] [] (signatures ex_dispatcher) k n
      \<and> fn_best_match demo_runtime ex_dispatcher [PInt 1] [] = Inr (overload_list ex_dispatcher ! k)
      \<and> fn_call demo_runtime ex_dispatcher [PInt 1] [] (0::nat)
          = body (overload_list ex_dispatcher ! k) [PInt 1] [] 0)
   \<and> (\<exists>k<length (overload_list (ex_bound None)). \<exists>n.
        first_highest demo_runtime (self_instance (ex_bound None) # [PInt 1]) []
          (signatures (ex_bound None)) k n
      \<and> bound_best_match demo_runtime (ex_bound None) [PInt 1] []
          = Inr (overload_list (ex_bound None) ! k)
      \<and> bound_call demo_runtime (ex_bound None) [PInt 1] [] (0::nat)
          = body (overload_list (ex_bound None) ! k) (self_instance (ex_bound None) # [PInt 1]) [] 0)
   \<and> first_highest demo_runtime [PInt 1] [] (signatures ex_dispatcher) 0 1
   \<and> fn_call demo_runtime ex_dispatcher [PInt 1] [] (0::nat) = (Inr (PStr ''f_int''), 1)
   \<and> bound_call demo_runtime (ex_bound None) [PInt 1] [] (0::nat) = (Inr (PStr ''m_int''), 1)"
proof -
  have f: "length (overload_list ex_dispatcher) = length (signatures ex_dispatcher)
      \<and> (\<forall>sg\<in>set (signatures ex_dispatcher). \<forall>e. cand_score demo_runtime [PInt 1] [] sg \<noteq> Some (Inl e))
      \<and> (\<exists>sg\<in>set (signatures ex_dispatcher). \<exists>n\<ge>0. cand_score demo_runtime [PInt 1] [] sg = Some (Inr n))"
    by (simp add: ex_lists ex_scores)
  have b: "length (overload_list (ex_bound None)) = length (signatures (ex_bound None))
      \<and> (\<forall>sg\<in>set (signatures (ex_bound None)). \<forall>e.
             cand_score demo_runtime (self_instance (ex_bound None) # [PInt 1]) [] sg \<noteq> Some (Inl e))
      \<and> (\<exists>sg\<in>set (signatures (ex_bound None)). \<exists>n\<ge>0.
             cand_score demo_runtime (self_instance (ex_bound None) # [PInt 1]) [] sg = Some (Inr n))"
    by (simp add: ex_lists ex_scores)
  have fh: "first_highest demo_runtime [PInt 1] [] (signatures ex_dispatcher) 0 1"
    by (simp add: first_highest_def score_at_most_def score_below_def ex_lists ex_scores)
  have e1: "fn_call demo_runtime ex_dispatcher [PInt 1] [] (0::nat) = (Inr (PStr ''f_int''), 1)"
    by (simp add: fn_call_def fn_best_match_def best_match_result_def demo_simps)
  have e2: "bound_call demo_runtime (ex_bound None) [PInt 1] [] (0::nat) = (Inr (PStr ''m_int''), 1)"
    by (simp add: bound_call_def bound_best_match_def best_match_result_def demo_simps)
  from dispatch_selects_first_highest[of ex_dispatcher demo_runtime "[PInt 1]" "[]" 0 "ex_bound None"]
  show ?thesis using f b fh e1 e2 by blast
qed

lemma bound_call_no_match:
  assumes "bound_best_match rt d args kwargs = Inl NoMatchingOverloadException"
  shows "bound_call rt d args kwargs s =
     (case super_call d of
        None \<Rightarrow> (Inl NoMatchingOverloadException, s)
      | Some ancestor \<Rightarrow>
          (if fst (ancestor args kwargs s) = Inl TypeError
           then (Inl NoMatchingOverloadException, snd (ancestor args kwargs s))
           else ancestor args kwargs s))"
proof (cases "super_call d")
  case None
  then show ?thesis using assms by (simp add: bound_call_def)
next
  case (Some ancestor)
  obtain r s' where rs: "ancestor args kwargs s = (r, s')" by (cases "ancestor args kwargs s")
  show ?thesis
  proof (cases "r = Inl TypeError")
    case True
    then show ?thesis using assms Some rs by (simp add: bound_call_def)
  next
    case False
    then show ?thesis using assms Some rs
      by (simp add: bound_call_def split: sum.splits pyexn.splits)
  qed
qed

text \<open>
  C7. Bound dispatch when no candidate of the local registry binds with a score that is
  not negative: without an ancestor implementation the call raises
  \<^verbatim>\<open>NoMatchingOverloadException\<close>; with one, the ancestor is called with the caller's
  arguments (without the instance, which the bound method carries), a \<^verbatim>\<open>TypeError\<close> of
  that call becomes \<^verbatim>\<open>NoMatchingOverloadException\<close>, and any other outcome is the
  outcome of the dispatch.
\<close>

theorem bound_dispatch_ancestor_fallback:
  assumes "\<forall>sg\<in>set (signatures d).
             cand_score rt (self_instance d # args) kwargs sg = None
           \<or> (\<exists>n<0. cand_score rt (self_instance d # args) kwargs sg = Some (Inr n))"
  shows "(super_call d = None \<longrightarrow>
            bound_call rt d args kwargs s = (Inl NoMatchingOverloadException, s))
       \<and> (\<forall>ancestor. super_call d = Some ancestor \<longrightarrow>
            (\<forall>s'. ancestor args kwargs s = (Inl TypeError, s') \<longrightarrow>
                bound_call rt d args kwargs s = (Inl NoMatchingOverloadException, s'))
          \<and> (fst (ancestor args kwargs s) \<noteq> Inl TypeError \<longrightarrow>
                bound_call rt d args kwargs s = ancestor args kwargs s))"
proof -
  have "bound_best_match rt d args kwargs = Inl NoMatchingOverloadException"
    unfolding bound_best_match_def using assms by (rule best_match_loop_no_match)
  from bound_call_no_match[OF this, of s] show ?thesis by auto
qed

lemma ex_no_local_match:
  "\<forall>sg\<in>set (signatures (ex_bound anc)).
     cand_score demo_runtime (self_instance (ex_bound anc) # [PNone]) [] sg = None
   \<or> (\<exists>n<0. cand_score demo_runtime (self_instance (ex_bound anc) # [PNone]) [] sg = Some (Inr n))"
  "\<forall>sg\<in>set (signatures (ex_bound anc)).
     cand_score demo_runtime (self_instance (ex_bound anc) # [PNone, PNone]) [] sg = None
   \<or> (\<exists>n<0. cand_score demo_runtime (self_instance (ex_bound anc) # [PNone, PNone]) [] sg
               = Some (Inr n))"
  by (simp_all add: demo_simps)

theorem bound_dispatch_ancestor_fallback_witness:
  "bound_call demo_runtime (ex_bound None) [PNone] [] (0::nat) = (Inl NoMatchingOverloadException, 0)
 \<and> ex_ancestor [PNone] [] 0 = (Inr (PStr ''base_m''), 1)
 \<and> bound_call demo_runtime (ex_bound (Some ex_ancestor)) [PNone] [] (0::nat)
      = (Inr (PStr ''base_m''), 1)
 \<and> ex_ancestor [PNone, PNone] [] 0 = (Inl TypeError, 0)
 \<and> bound_call demo_runtime (ex_bound (Some ex_ancestor)) [PNone, PNone] [] (0::nat)
      = (Inl NoMatchingOverloadException, 0)"
proof -
  have a: "ex_ancestor [PNone] [] 0 = (Inr (PStr ''base_m''), 1)"
    by (simp add: demo_simps)
  have b: "ex_ancestor [PNone, PNone] [] 0 = (Inl TypeError, 0)"
    by (simp add: demo_simps)
  from bound_dispatch_ancestor_fallback[OF ex_no_local_match(1), of None 0]
       bound_dispatch_ancestor_fallback[OF ex_no_local_match(1), of "Some ex_ancestor" 0]
       bound_dispatch_ancestor_fallback[OF ex_no_local_match(2), of "Some ex_ancestor" 0] a b
  show ?thesis by (simp add: ex_lists)
qed

text \<open>
  C5, as amended. An exception raised by the body of the chosen candidate goes to the
  caller as it is, from the free-function dispatcher and from the bound dispatcher; so
  does an exception raised by the ancestor implementation of the fallback, unless it is
  a \<^verbatim>\<open>TypeError\<close>: the fallback cannot tell a \<^verbatim>\<open>TypeError\<close> raised by the ancestor's body
  from one raised by binding its arguments, and replaces both by
  \<^verbatim>\<open>NoMatchingOverloadException\<close>.
\<close>

theorem body_errors_propagate:
  "(fn_best_match rt fd args kwargs = Inr func \<and> body func args kwargs s = (Inl e, s')
      \<longrightarrow> fn_call rt fd args kwargs s = (Inl e, s'))
 \<and> (bound_best_match rt bd args kwargs = Inr func
      \<and> body func (self_instance bd # args) kwargs s = (Inl e, s')
      \<longrightarrow> bound_call rt bd args kwargs s = (Inl e, s'))
 \<and> (bound_best_match rt bd args kwargs = Inl NoMatchingOverloadException
      \<and> super_call bd = Some ancestor \<and> ancestor args kwargs s = (Inl e, s') \<and> e \<noteq> TypeError
      \<longrightarrow> bound_call rt bd args kwargs s = (Inl e, s'))
 \<and> (bound_best_match rt bd args kwargs = Inl NoMatchingOverloadException
      \<and> super_call bd = Some ancestor \<and> ancestor args kwargs s = (Inl TypeError, s')
      \<longrightarrow> bound_call rt bd args kwargs s = (Inl NoMatchingOverloadException, s'))"
proof (intro conjI impI)
  assume "fn_best_match rt fd args kwargs = Inr func \<and> body func args kwargs s = (Inl e, s')"
  then show "fn_call rt fd args kwargs s = (Inl e, s')" by (simp add: fn_call_def)
next
  assume "bound_best_match rt bd args kwargs = Inr func
      \<and> body func (self_instance bd # args) kwargs s = (Inl e, s')"
  then show "bound_call rt bd args kwargs s = (Inl e, s')" by (simp add: bound_call_def)
next
  assume a: "bound_best_match rt bd args kwargs = Inl NoMatchingOverloadException
      \<and> super_call bd = Some ancestor \<and> ancestor args kwargs s = (Inl e, s') \<and> e \<noteq> TypeError"
  then have "bound_best_match rt bd args kwargs = Inl NoMatchingOverloadException" by simp
  from bound_call_no_match[OF this, of s] a
  show "bound_call rt bd args kwargs s = (Inl e, s')" by simp
next
  assume a: "bound_best_match rt bd args kwargs = Inl NoMatchingOverloadException
      \<and> super_call bd = Some ancestor \<and> ancestor args kwargs s = (Inl TypeError, s')"
  then have "bound_best_match rt bd args kwargs = Inl NoMatchingOverloadException" by simp
  from bound_call_no_match[OF this, of s] a
  show "bound_call rt bd args kwargs s = (Inl NoMatchingOverloadException, s')" by simp
qed

lemma ex_best_matches:
  "fn_best_match demo_runtime (ex_raising_dispatcher e) [PInt 1] []
     = Inr (demo_raising ''g'' e [demo_param ''x'' (Class CInt)])"
  "bound_best_match demo_runtime (ex_raising_bound e) [PInt 1] []
     = Inr (demo_raising ''n'' e [demo_param ''self'' Empty, demo_param ''x'' (Class CInt)])"
  "bound_best_match demo_runtime (ex_bound anc) [PNone] [] = Inl NoMatchingOverloadException"
  by (simp_all add: fn_best_match_def bound_best_match_def best_match_result_def demo_simps)

lemma ex_bodies:
  "body (demo_raising n e sg) args kwargs s = (Inl e, Suc s)"
  "ex_ancestor_raising e [PNone] [] s = (Inl e, Suc s)"
  by (simp_all add: demo_simps)

theorem body_errors_propagate_witness:
  "fn_call demo_runtime (ex_raising_dispatcher (OtherException ''boom'')) [PInt 1] [] (0::nat)
     = (Inl (OtherException ''boom''), 1)
 \<and> bound_call demo_runtime (ex_raising_bound (OtherException ''boom'')) [PInt 1] [] (0::nat)
     = (Inl (OtherException ''boom''), 1)
 \<and> bound_call demo_runtime (ex_bound (Some (ex_ancestor_raising (OtherException ''boom''))))
       [PNone] [] (0::nat)
     = (Inl (OtherException ''boom''), 1)
 \<and> bound_call demo_runtime (ex_bound (Some (ex_ancestor_raising TypeError))) [PNone] [] (0::nat)
     = (Inl NoMatchingOverloadException, 1)"
proof -
  let ?e = "OtherException ''boom''"
  let ?fd = "ex_raising_dispatcher ?e"
  have 1: "fn_call demo_runtime ?fd [PInt 1] [] (0::nat) = (Inl ?e, 1)"
    using body_errors_propagate[where rt = demo_runtime and fd = ?fd and args = "[PInt 1]"
        and kwargs = "[]" and func = "demo_raising ''g'' ?e [demo_param ''x'' (Class CInt)]"
        and s = 0 and e = ?e and s' = 1 and bd = "ex_raising_bound ?e"
        and ancestor = "ex_ancestor_raising ?e"]
    by (simp add: ex_best_matches ex_bodies)
  have 2: "bound_call demo_runtime (ex_raising_bound ?e) [PInt 1] [] (0::nat) = (Inl ?e, 1)"
    using body_errors_propagate[where rt = demo_runtime and fd = ?fd and args = "[PInt 1]"
        and kwargs = "[]"
        and func = "demo_raising ''n'' ?e [demo_param ''self'' Empty, demo_param ''x'' (Class CInt)]"
        and s = 0 and e = ?e and s' = 1 and bd = "ex_raising_bound ?e"
        and ancestor = "ex_ancestor_raising ?e"]
    by (simp add: ex_best_matches ex_bodies)
  have 3: "bound_call demo_runtime (ex_bound (Some (ex_ancestor_raising ?e))) [PNone] [] (0::nat)
     = (Inl ?e, 1)"
    using body_errors_propagate[where rt = demo_runtime and fd = ?fd and args = "[PNone]"
        and kwargs = "[]" and func = ex_m_int
        and s = 0 and e = ?e and s' = 1 and bd = "ex_bound (Some (ex_ancestor_raising ?e))"
        and ancestor = "ex_ancestor_raising ?e"]
    by (simp add: ex_best_matches ex_bodies ex_lists)
  have 4: "bound_call demo_runtime (ex_bound (Some (ex_ancestor_raising TypeError))) [PNone] [] (0::nat)
     = (Inl NoMatchingOverloadException, 1)"
    using body_errors_propagate[where rt = demo_runtime and fd = ?fd and args = "[PNone]"
        and kwargs = "[]" and func = ex_m_int
        and s = 0 and e = ?e and s' = 1 and bd = "ex_bound (Some (ex_ancestor_raising TypeError))"
        and ancestor = "ex_ancestor_raising TypeError"]
    by (simp add: ex_best_matches ex_bodies ex_lists)
  from 1 2 3 4 show ?thesis by simp
qed

text \<open>
  C5 as stated fails: the ancestor method \<^verbatim>\<open>m(self, x)\<close> accepts the argument (its
  signature binds, its body runs and counts the call), its body raises \<^verbatim>\<open>TypeError\<close>,
  and the caller gets \<^verbatim>\<open>NoMatchingOverloadException\<close> instead.
\<close>

theorem ancestor_body_error_counterexample:
  "super_call (ex_bound (Some (ex_ancestor_raising TypeError))) = Some (ex_ancestor_raising TypeError)
 \<and> bound_best_match demo_runtime (ex_bound (Some (ex_ancestor_raising TypeError))) [PNone] []
     = Inl NoMatchingOverloadException
 \<and> demo_bind [demo_param ''self'' Empty, demo_param ''x'' Empty] [PStr ''obj'', PNone] []
     = Some [(''self'', PStr ''obj''), (''x'', PNone)]
 \<and> ex_ancestor_raising TypeError [PNone] [] 0 = (Inl TypeError, 1)
 \<and> bound_call demo_runtime (ex_bound (Some (ex_ancestor_raising TypeError))) [PNone] [] (0::nat)
     = (Inl NoMatchingOverloadException, 1)
 \<and> bound_call demo_runtime (ex_bound (Some (ex_ancestor_raising TypeError))) [PNone] [] (0::nat)
     \<noteq> ex_ancestor_raising TypeError [PNone] [] 0"
  by (simp add: ex_best_matches ex_bodies ex_lists bound_call_def demo_param_def)

text \<open>
  C10. When the sample arguments resolve to a candidate, \<^verbatim>\<open>help\<close> returns a string: the
  candidate's docstring, and the empty string when it has none.
\<close>

theorem help_returns_string:
  assumes "fn_best_match rt (item_dispatcher item) args kwargs = Inr func"
  shows "item_help rt item args kwargs = Inr (case fdoc func of None \<Rightarrow> [] | Some d \<Rightarrow> d)"
  using assms by (simp add: item_help_def doc_or_empty_def split: option.splits)

lemma ex_help_matches:
  "fn_best_match demo_runtime (item_dispatcher ex_item) [PInt 1] [] = Inr ex_f_int"
  "fn_best_match demo_runtime (item_dispatcher ex_item) [PStr ''a''] [] = Inr ex_f_int_or_str"
  by (simp_all add: fn_best_match_def best_match_result_def demo_simps)

theorem help_returns_string_witness:
  "fdoc ex_f_int_or_str = None
 \<and> item_help demo_runtime ex_item [PStr ''a''] [] = Inr []
 \<and> item_help demo_runtime ex_item [PInt 1] [] = Inr ''Takes an int.''"
  using help_returns_string[OF ex_help_matches(1)] help_returns_string[OF ex_help_matches(2)]
  by (simp add: ex_f_int_def ex_f_int_or_str_def demo_function_def)

lemma append_all_overloads:
  "overloads (fst (append_all item funcs)) = overloads item @ funcs
 \<and> item_signatures (fst (append_all item funcs)) = item_signatures item @ map signature funcs"
proof (induction funcs arbitrary: item)
  case Nil
  then show ?case by simp
next
  case (Cons func funcs)
  obtain item1 warned1 where a: "append_overload item func = (item1, warned1)"
    by (cases "append_overload item func")
  then have i1: "overloads item1 = overloads item @ [func]"
      "item_signatures item1 = item_signatures item @ [signature func]"
    by (auto simp: append_overload_def Let_def)
  obtain item2 warned2 where b: "append_all item1 funcs = (item2, warned2)"
    by (cases "append_all item1 funcs")
  from Cons.IH[of item1] b have "overloads item2 = overloads item1 @ funcs"
      "item_signatures item2 = item_signatures item1 @ map signature funcs" by simp_all
  with i1 a b show ?case by simp
qed

text \<open>
  C8. \<^verbatim>\<open>append\<close> puts the new function and its signature at the end of the two lists
  whatever the conflict detector says, and gives one warning for each registered
  signature the detector reports, in their order; so after any sequence of
  registrations the candidates stand in registration order. (A warning is recorded, not
  raised: the behaviour of \<^verbatim>\<open>warnings.warn\<close> under Python's default filters.)
\<close>

theorem registration_appends_in_order:
  "overloads (fst (append_overload item func)) = overloads item @ [func]
 \<and> item_signatures (fst (append_overload item func)) = item_signatures item @ [signature func]
 \<and> snd (append_overload item func)
     = map (ConflictingOverloadWarning (fname func) (signature func))
         (filter (overlap_signature (signature func)) (item_signatures item))
 \<and> overloads (fst (append_all (OverloadItem f0) funcs)) = f0 # funcs
 \<and> item_signatures (fst (append_all (OverloadItem f0) funcs)) = map signature (f0 # funcs)"
  using append_all_overloads[of "OverloadItem f0" funcs]
  by (simp add: append_overload_def Let_def OverloadItem_def)

lemma ex_overlaps:
  "overlap_signature (signature ex_k_int_int) (signature ex_k_int)"
  "\<not> overlap_signature (signature ex_k_str) (signature ex_k_int)"
  "\<not> overlap_signature (signature ex_k_str) (signature ex_k_int_int)"
  by (simp_all add: overlap_signature_def arity_mismatch_def len_defaults_def
      annotations_compatible_def demo_simps)

theorem registration_appends_in_order_witness:
  "overloads (fst (append_overload (OverloadItem ex_k_int) ex_k_int_int)) = [ex_k_int, ex_k_int_int]
 \<and> snd (append_overload (OverloadItem ex_k_int) ex_k_int_int)
     = [ConflictingOverloadWarning ''k'' (signature ex_k_int_int) (signature ex_k_int)]
 \<and> overloads (fst (append_all (OverloadItem ex_k_int) [ex_k_int_int, ex_k_str]))
     = [ex_k_int, ex_k_int_int, ex_k_str]
 \<and> item_signatures (fst (append_all (OverloadItem ex_k_int) [ex_k_int_int, ex_k_str]))
     = [signature ex_k_int, signature ex_k_int_int, signature ex_k_str]
 \<and> snd (append_all (OverloadItem ex_k_int) [ex_k_int_int, ex_k_str])
     = [ConflictingOverloadWarning ''k'' (signature ex_k_int_int) (signature ex_k_int)]"
proof -
  have n: "fname ex_k_int_int = ''k''" by (simp add: ex_k_int_int_def demo_function_def)
  have w: "snd (append_all (OverloadItem ex_k_int) [ex_k_int_int, ex_k_str])
     = [ConflictingOverloadWarning ''k'' (signature ex_k_int_int) (signature ex_k_int)]"
    using ex_overlaps n
    by (simp add: append_overload_def Let_def OverloadItem_def split_beta)
  from registration_appends_in_order[of "OverloadItem ex_k_int" ex_k_int_int ex_k_int "[ex_k_int_int, ex_k_str]"]
    w ex_overlaps n
  show ?thesis by (simp add: OverloadItem_def)
qed

text \<open>
  C6, as amended. Assigning a value that is not callable stores it under the name, as
  an ordinary dictionary does, whatever the name held before: a registry under that
  name is replaced. The error of \<^verbatim>\<open>__setitem__\<close>, a \<^verbatim>\<open>TypeError\<close>, is raised for the
  other order: a function assigned to a name that holds a value that is neither
  \<^verbatim>\<open>None\<close> nor a registry.
\<close>

theorem noncallable_assignment_stores:
  "(\<not> is_callable v \<longrightarrow> setitem d key v = Inr (d(key \<mapsto> Value v), []))
 \<and> (d key = Some (Value other) \<and> other \<noteq> NoneValue
      \<longrightarrow> setitem d key (Function func) = Inl TypeError)"
proof (intro conjI impI)
  assume "\<not> is_callable v"
  then show "setitem d key v = Inr (d(key \<mapsto> Value v), [])" by (cases v) simp_all
next
  assume "d key = Some (Value other) \<and> other \<noteq> NoneValue"
  then show "setitem d key (Function func) = Inl TypeError" by (cases other) simp_all
qed

theorem noncallable_assignment_stores_witness:
  "setitem ex_class_dict ''m'' (NonCallable (PInt 3))
     = Inr (ex_class_dict(''m'' \<mapsto> Value (NonCallable (PInt 3))), [])
 \<and> setitem ex_class_dict ''size'' (NonCallable (PInt 3))
     = Inr (ex_class_dict(''size'' \<mapsto> Value (NonCallable (PInt 3))), [])
 \<and> setitem (Map.empty(''size'' \<mapsto> Value (NonCallable (PInt 3)))) ''size'' (Function ex_m_int)
     = Inl TypeError"
  using noncallable_assignment_stores[of "NonCallable (PInt 3)" ex_class_dict "''m''"]
        noncallable_assignment_stores[of "NonCallable (PInt 3)" ex_class_dict "''size''"]
        noncallable_assignment_stores[of NoneValue "Map.empty(''size'' \<mapsto> Value (NonCallable (PInt 3)))"
          "''size''" "NonCallable (PInt 3)" ex_m_int]
  by simp

text \<open>
  C6 as stated fails: after \<^verbatim>\<open>def m(self, x: int)\<close> the name \<^verbatim>\<open>m\<close> holds a registry,
  and \<^verbatim>\<open>m = 3\<close> raises nothing: the dictionary then holds 3 under \<^verbatim>\<open>m\<close>.
\<close>

theorem registry_overwritten_counterexample:
  "setitem Map.empty ''m'' (Function ex_m_int) = Inr (ex_class_dict, [])
 \<and> ex_class_dict ''m'' = Some (Registry (OverloadItem ex_m_int))
 \<and> \<not> is_callable (NonCallable (PInt 3) :: (pyclass, pyval, nat) pyvalue)
 \<and> setitem ex_class_dict ''m'' (NonCallable (PInt 3))
     = Inr (ex_class_dict(''m'' \<mapsto> Value (NonCallable (PInt 3))), [])
 \<and> (ex_class_dict(''m'' \<mapsto> Value (NonCallable (PInt 3)))) ''m'' = Some (Value (NonCallable (PInt 3)))"
  by (simp add: ex_class_dict_def)

text \<open>
  C3 does not hold of the code. The registry holds \<^verbatim>\<open>f_var(*args: int)\<close> alone and the
  call is \<^verbatim>\<open>f_var(1, 2, "a")\<close>: the string scores -1 against \<^verbatim>\<open>int\<close>, but
  \<^verbatim>\<open>_score_any_type_hint\<close> adds the three scores up to 1, the signature scores 1, and
  the dispatcher calls the function instead of raising.
\<close>

theorem variadic_reject_is_summed:
  "score_type_hint demo_runtime (PStr ''a'') (Class CInt) = - 1
 \<and> bind demo_runtime (signature ex_f_var) [PInt 1, PInt 2, PStr ''a''] []
     = Some [(''args'', PTuple [PInt 1, PInt 2, PStr ''a''])]
 \<and> score_any_type_hint demo_runtime (PTuple [PInt 1, PInt 2, PStr ''a''])
       (demo_star_args ''args'' (Class CInt)) = Inr 1
 \<and> signature_matches demo_runtime (signature ex_f_var)
       [(''args'', PTuple [PInt 1, PInt 2, PStr ''a''])] = Inr 1
 \<and> fn_best_match demo_runtime ex_var_dispatcher [PInt 1, PInt 2, PStr ''a''] [] = Inr ex_f_var
 \<and> fn_call demo_runtime ex_var_dispatcher [PInt 1, PInt 2, PStr ''a''] [] (0::nat)
     = (Inr (PStr ''f_var''), 1)"
  by (simp add: fn_call_def fn_best_match_def best_match_result_def demo_simps)

text \<open>
  The arity step in terms of the specification's counts: the minimum of the
  specification is the number of parameters less the number of defaults.
\<close>

lemma spec_min_count_le: "spec_min_count sg \<le> length sg"
  by (simp add: spec_min_count_def)

lemma min_count_eq: "int (length sg) - len_defaults sg = int (spec_min_count sg)"
proof -
  have "length (filter (\<lambda>param. pdefault param \<noteq> None) sg)
        + length (filter (\<lambda>param. \<not> pdefault param \<noteq> None) sg) = length sg"
    by (rule sum_length_filter_compl)
  then show ?thesis by (simp add: len_defaults_def spec_min_count_def)
qed

lemma arity_mismatch_iff:
  "arity_mismatch sig1 sig2 \<longleftrightarrow>
     length sig1 \<noteq> length sig2 \<and> length sig1 \<noteq> spec_min_count sig2
   \<and> spec_min_count sig1 \<noteq> length sig2 \<and> spec_min_count sig1 \<noteq> spec_min_count sig2"
proof -
  have "arity_mismatch sig1 sig2 \<longleftrightarrow>
     int (length sig1) \<noteq> int (length sig2) \<and> int (length sig1) \<noteq> int (spec_min_count sig2)
   \<and> int (spec_min_count sig1) \<noteq> int (length sig2)
   \<and> int (spec_min_count sig1) \<noteq> int (spec_min_count sig2)"
    unfolding arity_mismatch_def min_count_eq ..
  then show ?thesis by simp
qed

lemma count_in_range_min: "count_in_range sg (spec_min_count sg)"
  by (simp add: count_in_range_def spec_max_count_def spec_min_count_le)

lemma spec_ranges_intersect_iff:
  "spec_ranges_intersect sig1 sig2 \<longleftrightarrow> (\<exists>k. count_in_range sig1 k \<and> count_in_range sig2 k)"
proof
  assume "spec_ranges_intersect sig1 sig2"
  then show "\<exists>k. count_in_range sig1 k \<and> count_in_range sig2 k"
    unfolding spec_ranges_intersect_def Let_def by blast
next
  assume "\<exists>k. count_in_range sig1 k \<and> count_in_range sig2 k"
  then obtain k where k: "count_in_range sig1 k" "count_in_range sig2 k" by blast
  let ?m = "max (spec_min_count sig1) (spec_min_count sig2)"
  have "?m \<le> k" using k by (simp add: count_in_range_def)
  then have "count_in_range sig1 ?m" "count_in_range sig2 ?m"
    using k by (auto simp: count_in_range_def split: option.splits)
  then show "spec_ranges_intersect sig1 sig2"
    by (simp add: spec_ranges_intersect_def Let_def)
qed

lemma disjoint_ranges_mismatch:
  assumes "\<not> spec_ranges_intersect sig1 sig2"
  shows "arity_mismatch sig1 sig2"
proof -
  have n1: "\<not> (count_in_range sig1 (spec_min_count sig1) \<and> count_in_range sig2 (spec_min_count sig1))"
    and n2: "\<not> (count_in_range sig1 (spec_min_count sig2) \<and> count_in_range sig2 (spec_min_count sig2))"
    using assms unfolding spec_ranges_intersect_iff by blast+
  from n1 count_in_range_min[of sig1] have a: "\<not> count_in_range sig2 (spec_min_count sig1)" by simp
  from n2 count_in_range_min[of sig2] have b: "\<not> count_in_range sig1 (spec_min_count sig2)" by simp
  have le1: "spec_min_count sig1 \<le> length sig1" and le2: "spec_min_count sig2 \<le> length sig2"
    by (rule spec_min_count_le)+
  from a b le1 le2 show ?thesis
    unfolding arity_mismatch_iff count_in_range_def spec_max_count_def
    by (auto split: if_splits)
qed

text \<open>
  C4, as amended. With the range of a signature running from its non-default parameter
  count to its parameter count (unbounded with a variadic parameter): whenever the two
  ranges do not intersect, the arity step declares no overlap; whenever the two ranges
  have an endpoint in common (equal parameter counts, equal minimums, or the parameter
  count of one equal to the minimum of the other), the step does not disqualify the
  pair; and a pair the step disqualifies is reported as not overlapping.
\<close>

theorem arity_step_sound:
  "(\<not> spec_ranges_intersect sig1 sig2 \<longrightarrow> arity_mismatch sig1 sig2)
 \<and> (length sig1 = length sig2 \<or> spec_min_count sig1 = spec_min_count sig2
      \<or> length sig1 = spec_min_count sig2 \<or> spec_min_count sig1 = length sig2
      \<longrightarrow> \<not> arity_mismatch sig1 sig2)
 \<and> (arity_mismatch sig1 sig2 \<longrightarrow> \<not> overlap_signature sig1 sig2)"
  using disjoint_ranges_mismatch[of sig1 sig2]
  by (auto simp: arity_mismatch_iff overlap_signature_def)

lemma ex_ranges:
  "spec_min_count ex_sig_star = 1" "spec_max_count ex_sig_star = None"
  "spec_min_count ex_sig_ab = 2" "spec_max_count ex_sig_ab = Some 2"
  "spec_min_count ex_sig_a_bcd = 1" "spec_max_count ex_sig_a_bcd = Some 4"
  "spec_min_count ex_sig_ab_c = 2" "spec_max_count ex_sig_ab_c = Some 3"
  "spec_min_count (signature ex_k_int) = 1" "spec_max_count (signature ex_k_int) = Some 1"
  "spec_min_count (signature ex_k_int_int) = 1" "spec_max_count (signature ex_k_int_int) = Some 2"
  by (simp_all add: spec_min_count_def spec_max_count_def demo_simps)

lemma ex_lengths:
  "length ex_sig_star = 1" "length ex_sig_ab = 2" "length ex_sig_a_bcd = 4" "length ex_sig_ab_c = 3"
  by (simp_all add: ex_sig_star_def ex_sig_ab_def ex_sig_a_bcd_def ex_sig_ab_c_def)

theorem arity_step_sound_witness:
  "\<not> spec_ranges_intersect (signature ex_k_int) ex_sig_ab
 \<and> arity_mismatch (signature ex_k_int) ex_sig_ab
 \<and> \<not> overlap_signature (signature ex_k_int) ex_sig_ab
 \<and> spec_min_count (signature ex_k_int) = spec_min_count (signature ex_k_int_int)
 \<and> \<not> arity_mismatch (signature ex_k_int) (signature ex_k_int_int)"
proof -
  have d: "\<not> spec_ranges_intersect (signature ex_k_int) ex_sig_ab"
    by (simp add: spec_ranges_intersect_def count_in_range_def ex_ranges)
  have e: "spec_min_count (signature ex_k_int) = spec_min_count (signature ex_k_int_int)"
    by (simp add: ex_ranges)
  from arity_step_sound[of "signature ex_k_int" ex_sig_ab]
       arity_step_sound[of "signature ex_k_int" "signature ex_k_int_int"] d e
  show ?thesis by simp
qed

text \<open>
  C4 as stated fails: the step has no notion of a variadic parameter, which it counts
  as one more parameter. The ranges of \<^verbatim>\<open>(*args)\<close> and \<^verbatim>\<open>(a, b)\<close> share the count 2,
  and the step declares no overlap.
\<close>

theorem arity_step_counterexample:
  "count_in_range ex_sig_star 2 \<and> count_in_range ex_sig_ab 2
 \<and> spec_ranges_intersect ex_sig_star ex_sig_ab
 \<and> arity_mismatch ex_sig_star ex_sig_ab
 \<and> \<not> (arity_mismatch ex_sig_star ex_sig_ab \<longleftrightarrow> \<not> spec_ranges_intersect ex_sig_star ex_sig_ab)"
  by (simp add: spec_ranges_intersect_def count_in_range_def ex_ranges ex_lengths arity_mismatch_iff)

text \<open>
  The step compares the four pairs of endpoints only. The ranges of
  \<^verbatim>\<open>(a, b=1, c=2, d=3)\<close> and \<^verbatim>\<open>(a, b, c=0)\<close> are 1 to 4 and 2 to 3: no endpoint is
  shared, the step declares no overlap, and a call with three positional arguments
  binds to both.
\<close>

lemma arity_step_misses_inner_ranges:
  "count_in_range ex_sig_a_bcd 3 \<and> count_in_range ex_sig_ab_c 3
 \<and> spec_ranges_intersect ex_sig_a_bcd ex_sig_ab_c
 \<and> arity_mismatch ex_sig_a_bcd ex_sig_ab_c
 \<and> \<not> overlap_signature ex_sig_a_bcd ex_sig_ab_c
 \<and> bind demo_runtime ex_sig_a_bcd [PInt 1, PInt 2, PInt 3] []
     = Some [(''a'', PInt 1), (''b'', PInt 2), (''c'', PInt 3), (''d'', PInt 3)]
 \<and> bind demo_runtime ex_sig_ab_c [PInt 1, PInt 2, PInt 3] []
     = Some [(''a'', PInt 1), (''b'', PInt 2), (''c'', PInt 3)]"
proof -
  have r: "count_in_range ex_sig_a_bcd 3 \<and> count_in_range ex_sig_ab_c 3
     \<and> spec_ranges_intersect ex_sig_a_bcd ex_sig_ab_c \<and> arity_mismatch ex_sig_a_bcd ex_sig_ab_c"
    by (simp add: spec_ranges_intersect_def count_in_range_def ex_ranges ex_lengths
        arity_mismatch_iff)
  then have o: "\<not> overlap_signature ex_sig_a_bcd ex_sig_ab_c"
    by (simp add: overlap_signature_def)
  have b: "bind demo_runtime ex_sig_a_bcd [PInt 1, PInt 2, PInt 3] []
     = Some [(''a'', PInt 1), (''b'', PInt 2), (''c'', PInt 3), (''d'', PInt 3)]"
    "bind demo_runtime ex_sig_ab_c [PInt 1, PInt 2, PInt 3] []
     = Some [(''a'', PInt 1), (''b'', PInt 2), (''c'', PInt 3)]"
    by (simp_all add: demo_simps)
  from r o b show ?thesis by simp
qed

text \<open>
  The conflict detector is symmetric. With distinct parameter names in the second
  signature, the loop checks every pair of parameters of the same name.
\<close>

lemma arity_mismatch_sym: "arity_mismatch sig1 sig2 = arity_mismatch sig2 sig1"
  unfolding arity_mismatch_iff by auto

lemma list_ex_member_sym:
  "list_ex (\<lambda>p. p \<in> set ys) xs = list_ex (\<lambda>p. p \<in> set xs) ys"
  by (auto simp: list_ex_iff)

lemma annotations_compatible_sym:
  "annotations_compatible a b = annotations_compatible b a"
proof -
  let ?a = "erase_origin a" and ?b = "erase_origin b"
  have eq: "(?a \<noteq> ?b) = (?b \<noteq> ?a)" by auto
  show ?thesis
    unfolding annotations_compatible_def Let_def
    using list_ex_member_sym[of "union_args ?b" "union_args ?a"] eq
    by (auto simp: list_ex_member_sym)
qed

lemma parameters_get_distinct:
  assumes "distinct (map pname sg)"
  shows "parameters_get sg n = Some q \<longleftrightarrow> q \<in> set sg \<and> pname q = n"
  using assms
proof (induction sg)
  case Nil
  then show ?case by (simp add: parameters_get_def)
next
  case (Cons p sg)
  then have ih: "parameters_get sg n = Some q \<longleftrightarrow> q \<in> set sg \<and> pname q = n" by simp
  from Cons.prems have "pname p \<notin> pname ` set sg" by simp
  then have notin: "\<forall>q\<in>set sg. pname q \<noteq> pname p" by (metis imageI)
  show ?case
  proof (cases "pname p = n")
    case True
    with notin have "\<not> (q \<in> set sg \<and> pname q = n)" by metis
    with True show ?thesis by (auto simp: parameters_get_def)
  next
    case False
    then have "parameters_get (p # sg) n = parameters_get sg n" by (simp add: parameters_get_def)
    with ih False show ?thesis by auto
  qed
qed

lemma parameters_get_None: "parameters_get sg n = None \<longleftrightarrow> (\<forall>q\<in>set sg. pname q \<noteq> n)"
  by (auto simp: parameters_get_def find_None_iff)

lemma overlap_loop_iff:
  assumes "distinct (map pname sig2)"
  shows "overlap_loop sig1 sig2 \<longleftrightarrow>
     (\<forall>p\<in>set sig1. \<forall>q\<in>set sig2. pname p = pname q \<longrightarrow>
         annotations_compatible (annotation p) (annotation q))"
proof (induction sig1)
  case Nil
  then show ?case by simp
next
  case (Cons p sig1)
  show ?case
  proof (cases "parameters_get sig2 (pname p)")
    case None
    then have "\<forall>q\<in>set sig2. pname q \<noteq> pname p" by (simp add: parameters_get_None)
    with None Cons.IH show ?thesis by auto
  next
    case (Some other)
    then have o: "other \<in> set sig2" "pname other = pname p"
      using parameters_get_distinct[OF assms] by blast+
    have uniq: "\<forall>q\<in>set sig2. pname p = pname q \<longrightarrow> q = other"
    proof (intro ballI impI)
      fix q assume "q \<in> set sig2" "pname p = pname q"
      then have "parameters_get sig2 (pname p) = Some q"
        using parameters_get_distinct[OF assms] by simp
      with Some show "q = other" by simp
    qed
    have "(\<forall>q\<in>set sig2. pname p = pname q \<longrightarrow>
             annotations_compatible (annotation p) (annotation q))
          \<longleftrightarrow> annotations_compatible (annotation p) (annotation other)"
      using o uniq by metis
    with Some Cons.IH show ?thesis by auto
  qed
qed

text \<open>
  C9. For two signatures, each with distinct parameter names (as every
  \<^verbatim>\<open>inspect.Signature\<close> has), checking the first against the second gives the same
  verdict as checking the second against the first.
\<close>

theorem overlap_signature_symmetric:
  assumes "distinct (map pname sig1)" and "distinct (map pname sig2)"
  shows "overlap_signature sig1 sig2 = overlap_signature sig2 sig1"
proof -
  have "overlap_loop sig1 sig2 = overlap_loop sig2 sig1"
    unfolding overlap_loop_iff[OF assms(2)] overlap_loop_iff[OF assms(1)]
    using annotations_compatible_sym by (metis (no_types))
  then show ?thesis
    using arity_mismatch_sym[of sig1 sig2] by (simp add: overlap_signature_def)
qed

lemma ex_distinct:
  "distinct (map pname (signature ex_k_int))"
  "distinct (map pname (signature ex_k_int_int))"
  "distinct (map pname (signature ex_k_str))"
  by (simp_all add: demo_simps)

theorem overlap_signature_symmetric_witness:
  "overlap_signature (signature ex_k_int_int) (signature ex_k_int)
 \<and> overlap_signature (signature ex_k_int) (signature ex_k_int_int)
 \<and> \<not> overlap_signature (signature ex_k_str) (signature ex_k_int_int)
 \<and> \<not> overlap_signature (signature ex_k_int_int) (signature ex_k_str)"
  using overlap_signature_symmetric[OF ex_distinct(1) ex_distinct(2)]
        overlap_signature_symmetric[OF ex_distinct(3) ex_distinct(2)] ex_overlaps
  by simp

end
